theory Spec2Isabelle
  imports Complex_Main "HOL-Library.List_Lexorder" "HOL-Library.Char_ord"
begin

section \<open>The corpus tables\<close>

text \<open>
  The tables \<^verbatim>\<open>documents\<close> and \<^verbatim>\<open>search_corpus\<close> are created by
  \<^verbatim>\<open>MMGrepSetup.create_core_tables\<close> with the same columns. The columns the
  statements below read or write are kept: \<^verbatim>\<open>uri\<close>, \<^verbatim>\<open>modality\<close>,
  \<^verbatim>\<open>source\<close>, \<^verbatim>\<open>text_content\<close> and \<^verbatim>\<open>embedding\<close>. A nullable column is an
  \<open>option\<close>, with \<open>None\<close> for SQL \<^verbatim>\<open>NULL\<close>. The rows inserted by
  \<^verbatim>\<open>insert_to_bigquery\<close> leave \<^verbatim>\<open>source\<close> unset, so it is nullable here.
  The elements of an \<^verbatim>\<open>ARRAY<FLOAT64>\<close> are never inspected by the code, only the
  length of the array; they are reals here. A table is the list of its rows.
\<close>

record doc =
  uri :: string
  modality :: string
  source :: "string option"
  text_content :: "string option"
  embedding :: "real list option"

type_synonym table = "doc list"

text \<open>
  \<^verbatim>\<open>ARRAY_LENGTH(embedding) = n\<close> inside \<^verbatim>\<open>CASE WHEN\<close> or \<^verbatim>\<open>WHERE\<close>: the
  length of a \<^verbatim>\<open>NULL\<close> array is \<^verbatim>\<open>NULL\<close>, the comparison is then \<^verbatim>\<open>NULL\<close>, and
  both \<^verbatim>\<open>CASE WHEN\<close> and \<^verbatim>\<open>WHERE\<close> treat \<^verbatim>\<open>NULL\<close> as not satisfied.
\<close>

definition ARRAY_LENGTH :: "'a list option \<Rightarrow> nat option" where
  "ARRAY_LENGTH a = map_option length a"

definition sql_eq :: "'a option \<Rightarrow> 'a \<Rightarrow> bool option" where
  "sql_eq x v = map_option (\<lambda>y. y = v) x"

definition sql_true :: "bool option \<Rightarrow> bool" where
  "sql_true c = (c = Some True)"

section \<open>Python strings\<close>

text \<open>
  A Python \<^verbatim>\<open>str\<close> is a list of characters, one element per character, and its
  \<^verbatim>\<open>len\<close> is the length of the list. \<open>char\<close> has 256 values, so the texts covered
  are those over the first 256 code points. \<^verbatim>\<open>s[:n]\<close> is \<open>take n s\<close>.
\<close>

fun split_on :: "char \<Rightarrow> string \<Rightarrow> string list" where
  "split_on c [] = [[]]"
| "split_on c (x # xs) =
     (if x = c then [] # split_on c xs
      else (case split_on c xs of w # ws \<Rightarrow> (x # w) # ws | [] \<Rightarrow> [[x]]))"

fun join :: "string \<Rightarrow> string list \<Rightarrow> string" where
  "join sep [] = []"
| "join sep [x] = x"
| "join sep (x # y # ys) = x @ sep @ join sep (y # ys)"

definition digit_char :: "nat \<Rightarrow> char" where
  "digit_char d = ''0123456789abcdef'' ! d"

fun str_nat :: "nat \<Rightarrow> string" where
  "str_nat n = (if n < 10 then [digit_char n] else str_nat (n div 10) @ [digit_char (n mod 10)])"

declare str_nat.simps [simp del]

definition str_int :: "int \<Rightarrow> string" where
  "str_int i = (if i < 0 then ''-'' @ str_nat (nat (- i)) else str_nat (nat i))"

definition hex2 :: "nat \<Rightarrow> string" where
  "hex2 n = [digit_char (n div 16 mod 16), digit_char (n mod 16)]"

section \<open>The console\<close>

text \<open>
  grepctl prints through a \<^verbatim>\<open>rich\<close> console with markup on: in a printed text, and
  in a \<^verbatim>\<open>str\<close> cell of a table, square brackets are markup tags (a tag that closes
  nothing raises \<^verbatim>\<open>MarkupError\<close>), a word between colons can be an emoji code, a
  backslash can escape a bracket, and control characters and line breaks change the
  layout. A text made only of lower-case letters, digits and underscores has none of
  these and is printed character by character as it is. \<open>render_str\<close> gives the text
  printed for such a text, and \<open>None\<close> for any other: what the console shows for it, or
  whether it raises, is outside this model. How the console wraps a line to the width of
  the terminal is not modelled either.
\<close>

definition plain_char :: "char \<Rightarrow> bool" where
  "plain_char c =
     (let n = (of_char c :: nat)
      in (0x61 \<le> n \<and> n \<le> 0x7A) \<or> (0x30 \<le> n \<and> n \<le> 0x39) \<or> n = 0x5F)"

definition plain_text :: "string \<Rightarrow> bool" where
  "plain_text s = list_all plain_char s"

definition render_str :: "string \<Rightarrow> string option" where
  "render_str s = (if plain_text s then Some s else None)"

section \<open>grepctl: index verify\<close>

text \<open>
  \<^verbatim>\<open>index_verify\<close> (grepctl.py) runs
  \<^verbatim>\<open>SELECT modality, COUNT(*), SUM(CASE WHEN ARRAY_LENGTH(embedding) = 768 THEN 1 ELSE 0 END),
  SUM(CASE WHEN embedding IS NULL THEN 1 ELSE 0 END),
  SUM(CASE WHEN ARRAY_LENGTH(embedding) = 0 THEN 1 ELSE 0 END)
  FROM search_corpus GROUP BY modality ORDER BY modality\<close>.
  \<open>STRING\<close> values are ordered by code point, which is the lexicographic order of the
  character lists.
\<close>

record health_row =
  row_modality :: string
  total_docs :: nat
  valid_embeddings :: nat
  null_embeddings :: nat
  empty_embeddings :: nat

definition case_when_1_else_0 :: "bool option \<Rightarrow> nat" where
  "case_when_1_else_0 c = (if sql_true c then 1 else 0)"

definition verify_group :: "string \<Rightarrow> table \<Rightarrow> health_row" where
  "verify_group m g =
     \<lparr> row_modality = m,
       total_docs = length g,
       valid_embeddings =
         sum_list (map (\<lambda>d. case_when_1_else_0 (sql_eq (ARRAY_LENGTH (embedding d)) 768)) g),
       null_embeddings =
         sum_list (map (\<lambda>d. case_when_1_else_0 (Some (embedding d = None))) g),
       empty_embeddings =
         sum_list (map (\<lambda>d. case_when_1_else_0 (sql_eq (ARRAY_LENGTH (embedding d)) 0)) g) \<rparr>"

definition verify_query :: "table \<Rightarrow> health_row list" where
  "verify_query search_corpus =
     map (\<lambda>m. verify_group m (filter (\<lambda>d. modality d = m) search_corpus))
         (sort (remdups (map modality search_corpus)))"

text \<open>
  The function returns nothing: its result is the table it prints, titled
  \<^verbatim>\<open>Embedding Health Check\<close>, with the columns \<^verbatim>\<open>Modality\<close>, \<^verbatim>\<open>Total\<close>,
  \<^verbatim>\<open>Valid (768-dim)\<close>, \<^verbatim>\<open>Missing\<close> and \<^verbatim>\<open>Empty\<close> and one line per result row:
  \<^verbatim>\<open>table.add_row(row.modality, str(row.total_docs), str(row.valid_embeddings),
  str(row.null_embeddings), str(row.empty_embeddings))\<close>. The report is the list of the lines,
  each the list of the five cell texts as the console renders them.
\<close>

definition add_row :: "health_row \<Rightarrow> string list option" where
  "add_row r =
     those (map render_str
       [row_modality r, str_nat (total_docs r), str_nat (valid_embeddings r),
        str_nat (null_embeddings r), str_nat (empty_embeddings r)])"

definition index_verify :: "table \<Rightarrow> string list list option" where
  "index_verify search_corpus = those (map add_row (verify_query search_corpus))"

section \<open>grepctl: fix stuck\<close>

text \<open>
  The lines grepctl prints, by the format that produces them. \<open>Fixing_stuck m\<close> is
  \<^verbatim>\<open>"Fixing stuck processing for <m>..."\<close> (without \<^verbatim>\<open>for\<close> when there is no
  modality), \<open>Reset_stuck n\<close> is \<^verbatim>\<open>"Reset <n> stuck embeddings"\<close>, and the other three
  are the lines of \<^verbatim>\<open>run_python_script\<close>.
\<close>

datatype console_line =
    Fixing_stuck "string option"
  | Reset_stuck nat
  | Script_not_found string
  | Script_completed string
  | Script_failed string

text \<open>
  What \<^verbatim>\<open>fix_stuck\<close> meets outside: whether getting the client or the update job raises
  (with the text of the exception), whether the script
  file exists under the directory of grepctl.py, and what running the script does to the
  table, with whether it exits with code 0.
\<close>

record fix_env =
  update_error :: "string option"
  script_exists :: bool
  run_script :: "table \<Rightarrow> bool \<times> table"

text \<open>
  What a call leaves behind: the exception that ended it, if any; the table; the lines
  printed; and the table the script was started on, if it was started.
\<close>

record fix_result =
  raised :: "string option"
  corpus_after :: table
  printed :: "console_line list"
  script_started_on :: "table option"

text \<open>
  \<^verbatim>\<open>run_python_script(script_name)\<close> with \<^verbatim>\<open>wait=True\<close>: a missing file is reported
  and nothing is run.
\<close>

definition run_python_script ::
  "fix_env \<Rightarrow> string \<Rightarrow> table \<Rightarrow> bool \<times> table \<times> console_line list \<times> table option" where
  "run_python_script fe script_name t =
     (if \<not> script_exists fe then (False, t, [Script_not_found script_name], None)
      else (case run_script fe t of
              (ok, t') \<Rightarrow>
                (ok, t',
                 [if ok then Script_completed script_name else Script_failed script_name],
                 Some t)))"

text \<open>
  \<^verbatim>\<open>fix_stuck(modality)\<close> (grepctl.py) prints its first line, with the modality in it
  when the option is truthy (neither \<^verbatim>\<open>None\<close> nor the empty text), then runs
  \<^verbatim>\<open>UPDATE search_corpus SET embedding = NULL WHERE ARRAY_LENGTH(embedding) = 0\<close>,
  followed by \<^verbatim>\<open>AND modality = '<modality>'\<close> when the option is truthy, waits for the
  job, prints the number of rows changed when there are any, and then calls
  \<^verbatim>\<open>run_python_script('src/grepctl/scripts/fix_embeddings.py')\<close>.

  The option's text is pasted into the printed line and, between single quotes, into the
  statement. For a text of lower-case letters, digits and underscores the line has no
  markup of the option's and the quoted text is the string literal denoting that very
  text. For any other text \<open>modality_condition\<close> gives \<open>None\<close>: such calls are outside
  this model.
\<close>

definition modality_condition :: "string option \<Rightarrow> (doc \<Rightarrow> bool) option" where
  "modality_condition opt =
     (case opt of
        None \<Rightarrow> Some (\<lambda>d. True)
      | Some m \<Rightarrow>
          if m = [] then Some (\<lambda>d. True)
          else if plain_text m then Some (\<lambda>d. modality d = m)
          else None)"

definition stuck :: "(doc \<Rightarrow> bool) \<Rightarrow> doc \<Rightarrow> bool" where
  "stuck cond d \<longleftrightarrow> sql_true (sql_eq (ARRAY_LENGTH (embedding d)) 0) \<and> cond d"

definition clear_empty_embeddings :: "(doc \<Rightarrow> bool) \<Rightarrow> table \<Rightarrow> table" where
  "clear_empty_embeddings cond search_corpus =
     map (\<lambda>d. if stuck cond d then d\<lparr>embedding := None\<rparr> else d) search_corpus"

definition fix_stuck :: "fix_env \<Rightarrow> string option \<Rightarrow> table \<Rightarrow> fix_result option" where
  "fix_stuck fe modality_opt search_corpus =
     (case modality_condition modality_opt of
        None \<Rightarrow> None
      | Some cond \<Rightarrow>
          (let line1 = Fixing_stuck (if modality_opt = Some [] then None else modality_opt)
           in case update_error fe of
                Some err \<Rightarrow>
                  Some \<lparr>raised = Some err, corpus_after = search_corpus,
                        printed = [line1], script_started_on = None\<rparr>
              | None \<Rightarrow>
                  (let cleared = clear_empty_embeddings cond search_corpus;
                       num_dml_affected_rows = length (filter (stuck cond) search_corpus)
                   in case run_python_script fe ''src/grepctl/scripts/fix_embeddings.py'' cleared of
                        (ok, t', lines, started) \<Rightarrow>
                          Some \<lparr>raised = None, corpus_after = t',
                                printed = [line1] @
                                  (if num_dml_affected_rows > 0
                                   then [Reset_stuck num_dml_affected_rows] else []) @ lines,
                                script_started_on = started\<rparr>)))"

section \<open>Python values\<close>

text \<open>
  A parsed JSON document, as \<^verbatim>\<open>json.loads\<close> returns it. A \<^verbatim>\<open>dict\<close> is the list of
  its items in insertion order. A \<^verbatim>\<open>float\<close> is kept as the text \<^verbatim>\<open>repr\<close> gives for
  it, with the three non-finite values apart: no arithmetic is done on it.
\<close>

datatype pyfloat = Finite string | NaN | PosInf | NegInf

datatype json =
    JNull
  | JBool bool
  | JInt int
  | JFloat pyfloat
  | JStr string
  | JList "json list"
  | JDict "(string \<times> json) list"

definition float_repr :: "pyfloat \<Rightarrow> string" where
  "float_repr f = (case f of Finite r \<Rightarrow> r | NaN \<Rightarrow> ''nan'' | PosInf \<Rightarrow> ''inf'' | NegInf \<Rightarrow> ''-inf'')"

text \<open>\<^verbatim>\<open>type(x).__name__\<close>\<close>

definition type_name :: "json \<Rightarrow> string" where
  "type_name v =
     (case v of JNull \<Rightarrow> ''NoneType'' | JBool _ \<Rightarrow> ''bool'' | JInt _ \<Rightarrow> ''int''
      | JFloat _ \<Rightarrow> ''float'' | JStr _ \<Rightarrow> ''str'' | JList _ \<Rightarrow> ''list'' | JDict _ \<Rightarrow> ''dict'')"

text \<open>
  \<^verbatim>\<open>repr\<close> of a \<^verbatim>\<open>str\<close>: single quotes, unless the text has a single quote and no
  double quote; the quote and the backslash are escaped, tab, line feed and carriage return
  are written \<^verbatim>\<open>\t\<close>, \<^verbatim>\<open>\n\<close>, \<^verbatim>\<open>\r\<close>, and any other non-printable character
  below 256 is written \<^verbatim>\<open>\xNN\<close>.
\<close>

definition printable :: "char \<Rightarrow> bool" where
  "printable c =
     (let n = (of_char c :: nat)
      in (0x20 \<le> n \<and> n \<le> 0x7E) \<or> (0xA1 \<le> n \<and> n \<noteq> 0xAD))"

definition repr_char :: "char \<Rightarrow> char \<Rightarrow> string" where
  "repr_char q c =
     (if c = q \<or> c = CHR 0x5C then [CHR 0x5C, c]
      else if c = CHR 0x09 then [CHR 0x5C, CHR ''t'']
      else if c = CHR 0x0A then [CHR 0x5C, CHR ''n'']
      else if c = CHR 0x0D then [CHR 0x5C, CHR ''r'']
      else if \<not> printable c then [CHR 0x5C, CHR ''x''] @ hex2 (of_char c)
      else [c])"

definition py_repr_str :: "string \<Rightarrow> string" where
  "py_repr_str s =
     (let q = (if CHR 0x27 \<in> set s \<and> CHR 0x22 \<notin> set s then CHR 0x22 else CHR 0x27)
      in q # concat (map (repr_char q) s) @ [q])"

fun py_repr :: "json \<Rightarrow> string" where
  "py_repr JNull = ''None''"
| "py_repr (JBool b) = (if b then ''True'' else ''False'')"
| "py_repr (JInt i) = str_int i"
| "py_repr (JFloat f) = float_repr f"
| "py_repr (JStr s) = py_repr_str s"
| "py_repr (JList xs) = ''['' @ join '', '' (map py_repr xs) @ '']''"
| "py_repr (JDict kvs) =
     ''{'' @ join '', '' (map (\<lambda>(k, v). py_repr_str k @ '': '' @ py_repr v) kvs) @ ''}''"

text \<open>\<^verbatim>\<open>str(x)\<close>: the text itself for a \<^verbatim>\<open>str\<close>, the \<^verbatim>\<open>repr\<close> otherwise.\<close>

definition py_str :: "json \<Rightarrow> string" where
  "py_str v = (case v of JStr s \<Rightarrow> s | _ \<Rightarrow> py_repr v)"

subsection \<open>json.dumps\<close>

text \<open>
  \<^verbatim>\<open>json.dumps\<close> with its defaults (\<^verbatim>\<open>ensure_ascii=True\<close>): inside a string every
  character outside the range from the space to the tilde is escaped, as are the double
  quote and the backslash.
\<close>

definition json_escape_char :: "char \<Rightarrow> string" where
  "json_escape_char c =
     (if c = CHR 0x22 then [CHR 0x5C, CHR 0x22]
      else if c = CHR 0x5C then [CHR 0x5C, CHR 0x5C]
      else if c = CHR 0x0A then [CHR 0x5C, CHR ''n'']
      else if c = CHR 0x0D then [CHR 0x5C, CHR ''r'']
      else if c = CHR 0x09 then [CHR 0x5C, CHR ''t'']
      else if c = CHR 0x08 then [CHR 0x5C, CHR ''b'']
      else if c = CHR 0x0C then [CHR 0x5C, CHR ''f'']
      else if (of_char c :: nat) < 0x20 \<or> 0x7E < (of_char c :: nat)
        then [CHR 0x5C, CHR ''u'', CHR ''0'', CHR ''0''] @ hex2 (of_char c)
      else [c])"

definition json_string :: "string \<Rightarrow> string" where
  "json_string s = CHR 0x22 # concat (map json_escape_char s) @ [CHR 0x22]"

definition json_float :: "pyfloat \<Rightarrow> string" where
  "json_float f =
     (case f of Finite r \<Rightarrow> r | NaN \<Rightarrow> ''NaN'' | PosInf \<Rightarrow> ''Infinity'' | NegInf \<Rightarrow> ''-Infinity'')"

text \<open>\<^verbatim>\<open>json.dumps(data)\<close>: the separators are \<^verbatim>\<open>', '\<close> and \<^verbatim>\<open>': '\<close>.\<close>

fun dumps :: "json \<Rightarrow> string" where
  "dumps JNull = ''null''"
| "dumps (JBool b) = (if b then ''true'' else ''false'')"
| "dumps (JInt i) = str_int i"
| "dumps (JFloat f) = json_float f"
| "dumps (JStr s) = json_string s"
| "dumps (JList xs) =
     (if xs = [] then ''[]'' else ''['' @ join '', '' (map dumps xs) @ '']'')"
| "dumps (JDict kvs) =
     (if kvs = [] then ''{}''
      else ''{'' @ join '', '' (map (\<lambda>(k, v). json_string k @ '': '' @ dumps v) kvs) @ ''}'')"

text \<open>
  \<^verbatim>\<open>json.dumps(data, indent=2)\<close>: every item of a non-empty container starts on a line
  of its own, indented by two spaces per nesting level; the item separator is a comma.
  The first argument is the nesting level of the value.
\<close>

definition newline_indent :: "nat \<Rightarrow> string" where
  "newline_indent level = CHR 0x0A # replicate (2 * level) CHR '' ''"

fun dumps_indent :: "nat \<Rightarrow> json \<Rightarrow> string" where
  "dumps_indent level (JList xs) =
     (if xs = [] then ''[]''
      else ''['' @ newline_indent (level + 1) @
           join ('','' @ newline_indent (level + 1)) (map (dumps_indent (level + 1)) xs) @
           newline_indent level @ '']'')"
| "dumps_indent level (JDict kvs) =
     (if kvs = [] then ''{}''
      else ''{'' @ newline_indent (level + 1) @
           join ('','' @ newline_indent (level + 1))
             (map (\<lambda>(k, v). json_string k @ '': '' @ dumps_indent (level + 1) v) kvs) @
           newline_indent level @ ''}'')"
| "dumps_indent level v = dumps v"

section \<open>ingest\_json\_csv: the extraction adapters\<close>

text \<open>
  What the adapters read from outside: the blob store, the two parsers and \<^verbatim>\<open>float()\<close>
  on a text. A call that raises gives \<open>Inl\<close> with the text of the exception.
\<close>

datatype cell = CStr string | CNone | CRest "string list"

record csv_table =
  fieldnames :: "string list option"
  csv_rows :: "(string option \<times> cell) list list"

record env =
  download_as_text :: "string \<Rightarrow> string \<Rightarrow> string + string"
  json_loads :: "string \<Rightarrow> string + json"
  csv_DictReader :: "string \<Rightarrow> string + csv_table"
  float_parses :: "string \<Rightarrow> bool"

text \<open>
  \<^verbatim>\<open>get_json_structure(obj, max_depth=3, current_depth=0)\<close>
\<close>

definition get_json_structure :: "json \<Rightarrow> nat \<Rightarrow> nat \<Rightarrow> string" where
  "get_json_structure obj max_depth current_depth =
     (if current_depth \<ge> max_depth then ''...''
      else (case obj of
          JDict kvs \<Rightarrow>
            if kvs = [] then ''{}''
            else (let keys = take 5 (map fst kvs);
                      keys = (if length kvs > 5 then keys @ [''...''] else keys)
                  in ''{'' @ join '', '' keys @ ''}'')
        | JList xs \<Rightarrow>
            (case xs of
               [] \<Rightarrow> ''[]''
             | x # _ \<Rightarrow> ''['' @ type_name x @ ''...] ('' @ str_nat (length xs) @ '' items)'')
        | _ \<Rightarrow> type_name obj))"

text \<open>The loop over \<^verbatim>\<open>list(data.items())[:20]\<close> adds at most one line per item.\<close>

definition sample_content_line :: "string \<times> json \<Rightarrow> string list" where
  "sample_content_line kv =
     (case kv of (key, value) \<Rightarrow>
        (case value of
           JStr _ \<Rightarrow> [''  '' @ key @ '': '' @ take 100 (py_str value)]
         | JInt _ \<Rightarrow> [''  '' @ key @ '': '' @ take 100 (py_str value)]
         | JFloat _ \<Rightarrow> [''  '' @ key @ '': '' @ take 100 (py_str value)]
         | JBool _ \<Rightarrow> [''  '' @ key @ '': '' @ take 100 (py_str value)]
         | JList xs \<Rightarrow>
             (case xs of
                [] \<Rightarrow> []
              | x # _ \<Rightarrow> [''  '' @ key @ '': ['' @ type_name x @ ''...] ('' @
                          str_nat (length xs) @ '' items)''])
         | JDict kvs \<Rightarrow> [''  '' @ key @ '': {...} ('' @ str_nat (length kvs) @ '' keys)'']
         | JNull \<Rightarrow> []))"

text \<open>The loop over \<^verbatim>\<open>enumerate(data[:5])\<close>.\<close>

definition sample_item_line :: "nat \<times> json \<Rightarrow> string" where
  "sample_item_line p =
     (case p of (i, item) \<Rightarrow>
        (case item of
           JDict kvs \<Rightarrow>
             ''  ['' @ str_nat i @ '']: {'' @ join '', '' (take 5 (map fst kvs)) @ ''...}''
         | _ \<Rightarrow> ''  ['' @ str_nat i @ '']: '' @ take 100 (py_str item)))"

definition json_key_information :: "json \<Rightarrow> string list" where
  "json_key_information data =
     (case data of
        JDict kvs \<Rightarrow>
          [''Root keys: '' @ join '', '' (take 10 (map fst kvs)),
           CHR 0x0A # ''Sample content:''] @
          concat (map sample_content_line (take 20 kvs))
      | JList xs \<Rightarrow>
          [''Array with '' @ str_nat (length xs) @ '' items''] @
          (case xs of
             [] \<Rightarrow> []
           | x # _ \<Rightarrow>
               [''Item type: '' @ type_name x, CHR 0x0A # ''Sample items:''] @
               map sample_item_line (enumerate 0 (take 5 xs)))
      | _ \<Rightarrow> [])"

text \<open>
  \<^verbatim>\<open>json_str = json.dumps(data, indent=2)[:5000]\<close>, then the marker when
  \<^verbatim>\<open>len(json_str) < len(json.dumps(data))\<close>.
\<close>

definition truncation_marker :: string where
  "truncation_marker = CHR 0x0A # ''... [truncated]''"

definition json_str :: "json \<Rightarrow> string" where
  "json_str data =
     (let js = take 5000 (dumps_indent 0 data)
      in if length js < length (dumps data) then js @ truncation_marker else js)"

definition json_content_parts :: "string \<Rightarrow> json \<Rightarrow> string \<Rightarrow> string list" where
  "json_content_parts uri_arg data now =
     (let filename = last (split_on CHR ''/'' uri_arg)
      in [''JSON File: '' @ filename,
          ''Location: '' @ uri_arg,
          ''Structure: '' @ get_json_structure data 3 0,
          []] @
         json_key_information data @
         [CHR 0x0A # ''JSON Data:'' @ [CHR 0x0A] @ json_str data] @
         [[],
          ''Analysis: JSON content extracted for semantic search'',
          ''Indexed: '' @ now])"

text \<open>
  \<^verbatim>\<open>process_json_file(uri)\<close>. The argument \<open>now\<close> is what
  \<^verbatim>\<open>time.strftime('%Y-%m-%d %H:%M:%S UTC', time.gmtime())\<close> gives during the call.
  The result is the returned value with the line written by \<^verbatim>\<open>logger.error\<close>, if any:
  \<open>Failed_to_process kind uri e\<close> stands for
  \<^verbatim>\<open>"Failed to process <kind> <uri>: <e>"\<close>.
\<close>

datatype log_entry =
    Failed_to_process string string string
  | Failed_file string string
  | Processed_file string string

definition locate_blob :: "string \<Rightarrow> string + (string \<times> string)" where
  "locate_blob uri_arg =
     (let parts = split_on CHR ''/'' uri_arg
      in if length parts \<le> 2 then Inl ''list index out of range''
         else Inr (parts ! 2, join ''/'' (drop 3 parts)))"

definition process_json_body :: "env \<Rightarrow> string \<Rightarrow> string \<Rightarrow> string + string" where
  "process_json_body e now uri_arg =
     (case locate_blob uri_arg of
        Inl err \<Rightarrow> Inl err
      | Inr (bucket_name, blob_name) \<Rightarrow>
          (case download_as_text e bucket_name blob_name of
             Inl err \<Rightarrow> Inl err
           | Inr json_content \<Rightarrow>
               (case json_loads e json_content of
                  Inl err \<Rightarrow> Inl err
                | Inr data \<Rightarrow> Inr (join [CHR 0x0A] (json_content_parts uri_arg data now)))))"

definition process_json_file :: "env \<Rightarrow> string \<Rightarrow> string \<Rightarrow> string option \<times> log_entry list" where
  "process_json_file e now uri_arg =
     (case process_json_body e now uri_arg of
        Inr text \<Rightarrow> (Some text, [])
      | Inl err \<Rightarrow> (None, [Failed_to_process ''JSON'' uri_arg err]))"

subsection \<open>process\_csv\_file\<close>

text \<open>
  A row of \<^verbatim>\<open>csv.DictReader\<close> is a \<^verbatim>\<open>dict\<close>, here the list of its items in order.
  A key is a header, or \<^verbatim>\<open>None\<close> (the \<^verbatim>\<open>restkey\<close>) for the surplus fields of a long
  line, whose value is the list of them (\<open>CRest\<close>); a missing field has the value
  \<^verbatim>\<open>None\<close> (\<open>CNone\<close>).
\<close>

definition cell_truthy :: "cell \<Rightarrow> bool" where
  "cell_truthy v = (case v of CStr s \<Rightarrow> s \<noteq> [] | CNone \<Rightarrow> False | CRest xs \<Rightarrow> xs \<noteq> [])"

definition cell_str :: "cell \<Rightarrow> string" where
  "cell_str v =
     (case v of CStr s \<Rightarrow> s | CNone \<Rightarrow> ''None''
      | CRest xs \<Rightarrow> ''['' @ join '', '' (map py_repr_str xs) @ '']'')"

definition key_str :: "string option \<Rightarrow> string" where
  "key_str k = (case k of Some s \<Rightarrow> s | None \<Rightarrow> ''None'')"

text \<open>\<^verbatim>\<open>row.get(header)\<close>\<close>

definition row_get :: "(string option \<times> cell) list \<Rightarrow> string \<Rightarrow> cell" where
  "row_get row header = (case map_of row (Some header) of Some v \<Rightarrow> v | None \<Rightarrow> CNone)"

definition column_analysis_line :: "(string option \<times> cell) list list \<Rightarrow> string \<Rightarrow> string list" where
  "column_analysis_line rows header =
     (let sample_values =
            map (\<lambda>row. take 50 (cell_str (row_get row header)))
                (filter (\<lambda>row. cell_truthy (row_get row header)) (take 5 rows))
      in if sample_values \<noteq> []
         then [''  '' @ header @ '': '' @ join '', '' (take 3 sample_values)]
         else [])"

definition sample_row_line :: "nat \<times> (string option \<times> cell) list \<Rightarrow> string" where
  "sample_row_line p =
     (case p of (i, row) \<Rightarrow>
        (let row_str = join '' | '' (map (\<lambda>(k, v). key_str k @ '': '' @ take 30 (cell_str v))
                                        (take 5 row))
         in ''  Row '' @ str_nat (i + 1) @ '': '' @ row_str))"

text \<open>
  A header is numeric when, over the first 100 rows, the truthy values of its column are
  at least one and \<^verbatim>\<open>float()\<close> accepts every one of them; a value it rejects (or a list,
  which it cannot take) raises inside the \<^verbatim>\<open>try\<close> and the header is passed over.
\<close>

definition float_accepts :: "env \<Rightarrow> cell \<Rightarrow> bool" where
  "float_accepts e v = (case v of CStr s \<Rightarrow> float_parses e s | _ \<Rightarrow> False)"

definition is_numeric_col :: "env \<Rightarrow> (string option \<times> cell) list list \<Rightarrow> string \<Rightarrow> bool" where
  "is_numeric_col e rows header =
     (let values = filter cell_truthy (map (\<lambda>row. row_get row header) (take 100 rows))
      in values \<noteq> [] \<and> list_all (float_accepts e) values)"

definition csv_preview :: "string \<Rightarrow> string" where
  "csv_preview csv_content =
     (let p = take 3000 csv_content
      in if length p < length csv_content then p @ truncation_marker else p)"

text \<open>
  The lines added under \<^verbatim>\<open>if rows:\<close>. With rows and no header list,
  \<^verbatim>\<open>headers[:10]\<close> raises.
\<close>

definition csv_row_sections :: "env \<Rightarrow> csv_table \<Rightarrow> string + string list" where
  "csv_row_sections e t =
     (if csv_rows t = [] then Inr []
      else (case fieldnames t of
          None \<Rightarrow> Inl ''NoneType object is not subscriptable''
        | Some headers \<Rightarrow>
            (let numeric_cols = filter (is_numeric_col e (csv_rows t)) headers
             in Inr ([CHR 0x0A # ''Column Analysis:''] @
                     concat (map (column_analysis_line (csv_rows t)) (take 10 headers)) @
                     [CHR 0x0A # ''Sample Data (first 10 rows):''] @
                     map sample_row_line (enumerate 0 (take 10 (csv_rows t))) @
                     (if numeric_cols \<noteq> []
                      then [CHR 0x0A # ''Numeric columns found: '' @
                              join '', '' (take 10 numeric_cols)]
                      else [])))))"

definition csv_content_parts ::
  "env \<Rightarrow> string \<Rightarrow> string \<Rightarrow> csv_table \<Rightarrow> string \<Rightarrow> string + string list" where
  "csv_content_parts e uri_arg csv_content t now =
     (let filename = last (split_on CHR ''/'' uri_arg)
      in (case csv_row_sections e t of
            Inl err \<Rightarrow> Inl err
          | Inr sections \<Rightarrow>
              Inr ([''CSV File: '' @ filename,
                    ''Location: '' @ uri_arg,
                    []] @
                   (case fieldnames t of
                      None \<Rightarrow> []
                    | Some headers \<Rightarrow>
                        if headers = [] then []
                        else [''Columns ('' @ str_nat (length headers) @ ''): '' @
                                join '', '' headers]) @
                   [''Rows: '' @ str_nat (length (csv_rows t))] @
                   sections @
                   [CHR 0x0A # ''CSV Preview:'' @ [CHR 0x0A] @ csv_preview csv_content] @
                   [[],
                    ''Analysis: CSV content extracted for semantic search'',
                    ''Indexed: '' @ now])))"

definition process_csv_body :: "env \<Rightarrow> string \<Rightarrow> string \<Rightarrow> string + string" where
  "process_csv_body e now uri_arg =
     (case locate_blob uri_arg of
        Inl err \<Rightarrow> Inl err
      | Inr (bucket_name, blob_name) \<Rightarrow>
          (case download_as_text e bucket_name blob_name of
             Inl err \<Rightarrow> Inl err
           | Inr csv_content \<Rightarrow>
               (case csv_DictReader e csv_content of
                  Inl err \<Rightarrow> Inl err
                | Inr t \<Rightarrow>
                    (case csv_content_parts e uri_arg csv_content t now of
                       Inl err \<Rightarrow> Inl err
                     | Inr parts \<Rightarrow> Inr (join [CHR 0x0A] parts)))))"

definition process_csv_file :: "env \<Rightarrow> string \<Rightarrow> string \<Rightarrow> string option \<times> log_entry list" where
  "process_csv_file e now uri_arg =
     (case process_csv_body e now uri_arg of
        Inr text \<Rightarrow> (Some text, [])
      | Inl err \<Rightarrow> (None, [Failed_to_process ''CSV'' uri_arg err]))"

section \<open>setup\_mmgrep: object tables, simple ingestion, search corpus\<close>

text \<open>
  \<^verbatim>\<open>create_external_tables\<close> declares, for every modality name, the object table
  \<^verbatim>\<open>obj_<modality>\<close> over the objects matching
  \<^verbatim>\<open>gs://<bucket>/<prefix>/<modality>/*\<close>: those whose uri starts with the text before the
  star. A row of an object table has the uri of the object and its content;
  \<open>obj_data\<close> is \<^verbatim>\<open>SAFE_CAST(data AS STRING)\<close>, which is \<^verbatim>\<open>NULL\<close> for bytes that are not
  text. The bucket is the list of its objects.
\<close>

record obj =
  obj_uri :: string
  obj_data :: "string option"

definition uri_pattern :: "string \<Rightarrow> string \<Rightarrow> string \<Rightarrow> string" where
  "uri_pattern gcs_bucket gcs_prefix m =
     ''gs://'' @ gcs_bucket @ ''/'' @ gcs_prefix @ ''/'' @ m @ ''/''"

definition starts_with :: "string \<Rightarrow> string \<Rightarrow> bool" where
  "starts_with p s \<longleftrightarrow> take (length p) s = p"

definition object_table :: "string \<Rightarrow> string \<Rightarrow> string \<Rightarrow> obj list \<Rightarrow> obj list" where
  "object_table gcs_bucket gcs_prefix m bucket =
     filter (\<lambda>ob. starts_with (uri_pattern gcs_bucket gcs_prefix m) (obj_uri ob)) bucket"

text \<open>The two tables of the data set that the runs below write.\<close>

record store =
  documents :: table
  search_corpus :: table

text \<open>
  \<^verbatim>\<open>create_core_tables\<close>: \<^verbatim>\<open>CREATE OR REPLACE TABLE\<close> for each table, so a table whose
  statement runs is left empty. \<^verbatim>\<open>run_command\<close> gives \<^verbatim>\<open>None\<close> for a command that
  fails, and the callers go on: each statement below has a flag telling whether it ran.
\<close>

definition create_core_tables :: "bool \<Rightarrow> bool \<Rightarrow> store \<Rightarrow> store" where
  "create_core_tables ran_documents ran_search_corpus st =
     \<lparr>documents = (if ran_documents then [] else documents st),
      search_corpus = (if ran_search_corpus then [] else search_corpus st)\<rparr>"

text \<open>
  \<^verbatim>\<open>ingest_simple_data\<close>: two statements
  \<^verbatim>\<open>INSERT INTO documents SELECT ... FROM obj_text WHERE uri NOT IN (SELECT DISTINCT uri
  FROM documents WHERE modality = 'text')\<close>, the second from \<^verbatim>\<open>obj_markdown\<close> with
  \<^verbatim>\<open>'markdown' AS source\<close> and \<^verbatim>\<open>WHERE source = 'markdown'\<close> in the subquery. Both
  write \<^verbatim>\<open>'text' AS modality\<close> and \<^verbatim>\<open>NULL AS embedding\<close>.
\<close>

definition text_query :: "obj list \<Rightarrow> table \<Rightarrow> table" where
  "text_query obj_text docs =
     docs @
     map (\<lambda>ob. \<lparr>uri = obj_uri ob, modality = ''text'', source = Some ''file'',
                 text_content = obj_data ob, embedding = None\<rparr>)
         (filter (\<lambda>ob. obj_uri ob \<notin> set (map uri (filter (\<lambda>d. modality d = ''text'') docs)))
                 obj_text)"

definition markdown_query :: "obj list \<Rightarrow> table \<Rightarrow> table" where
  "markdown_query obj_markdown docs =
     docs @
     map (\<lambda>ob. \<lparr>uri = obj_uri ob, modality = ''text'', source = Some ''markdown'',
                 text_content = obj_data ob, embedding = None\<rparr>)
         (filter (\<lambda>ob. obj_uri ob \<notin>
                     set (map uri (filter (\<lambda>d. source d = Some ''markdown'') docs)))
                 obj_markdown)"

text \<open>
  The instance of \<^verbatim>\<open>MMGrepSetup\<close>: its bucket and prefix. What a run of
  \<^verbatim>\<open>ingest_simple_data\<close> meets outside: the objects in the bucket and whether each of
  the two statements ran.
\<close>

record setup_config =
  gcs_bucket :: string
  gcs_prefix :: string

record setup_env =
  bucket_objects :: "obj list"
  text_query_ran :: bool
  markdown_query_ran :: bool

definition obj_text :: "setup_config \<Rightarrow> setup_env \<Rightarrow> obj list" where
  "obj_text cfg se = object_table (gcs_bucket cfg) (gcs_prefix cfg) ''text'' (bucket_objects se)"

definition obj_markdown :: "setup_config \<Rightarrow> setup_env \<Rightarrow> obj list" where
  "obj_markdown cfg se =
     object_table (gcs_bucket cfg) (gcs_prefix cfg) ''markdown'' (bucket_objects se)"

definition ingest_simple_data :: "setup_config \<Rightarrow> setup_env \<Rightarrow> store \<Rightarrow> store" where
  "ingest_simple_data cfg se st =
     (let docs1 = (if text_query_ran se then text_query (obj_text cfg se) (documents st)
                   else documents st);
          docs2 = (if markdown_query_ran se then markdown_query (obj_markdown cfg se) docs1
                   else docs1)
      in st\<lparr>documents := docs2\<rparr>)"

text \<open>
  \<^verbatim>\<open>create_search_corpus\<close>: \<^verbatim>\<open>CREATE OR REPLACE TABLE search_corpus AS SELECT ...,
  CAST(NULL AS ARRAY<FLOAT64>) AS embedding FROM documents WHERE text_content IS NOT NULL\<close>.
\<close>

definition create_search_corpus :: "bool \<Rightarrow> store \<Rightarrow> store" where
  "create_search_corpus executed st =
     (if executed
      then st\<lparr>search_corpus :=
                map (\<lambda>d. d\<lparr>embedding := None\<rparr>)
                    (filter (\<lambda>d. text_content d \<noteq> None) (documents st))\<rparr>
      else st)"

section \<open>ingest\_json\_csv: insertion and the main run\<close>

text \<open>
  A document built by \<^verbatim>\<open>main\<close>: the \<^verbatim>\<open>dict\<close> with the keys \<^verbatim>\<open>uri\<close>,
  \<^verbatim>\<open>modality\<close> and \<^verbatim>\<open>text_content\<close>.
\<close>

record document =
  d_uri :: string
  d_modality :: string
  d_text_content :: string

text \<open>
  \<^verbatim>\<open>insert_to_bigquery(documents)\<close> builds one row per document, with
  \<^verbatim>\<open>'embedding': None\<close>, and hands the rows to \<^verbatim>\<open>insert_rows_json\<close>. The call stores
  the rows and reports no error, or reports errors, or raises (as \<^verbatim>\<open>get_table\<close> before
  it can); in the last two cases no row of the request is stored.
\<close>

datatype insert_outcome = Inserted | Insert_errors string | Insert_raised string

definition rows_to_insert :: "document list \<Rightarrow> table" where
  "rows_to_insert docs =
     map (\<lambda>d. \<lparr>uri = d_uri d, modality = d_modality d, source = None,
                text_content = Some (d_text_content d), embedding = None\<rparr>) docs"

definition insert_to_bigquery ::
  "insert_outcome \<Rightarrow> document list \<Rightarrow> table \<Rightarrow> string + (nat \<times> table)" where
  "insert_to_bigquery outcome docs corpus =
     (if docs = [] then Inr (0, corpus)
      else (case outcome of
              Inserted \<Rightarrow> Inr (length (rows_to_insert docs), corpus @ rows_to_insert docs)
            | Insert_errors err \<Rightarrow> Inr (0, corpus)
            | Insert_raised err \<Rightarrow> Inl err))"

text \<open>
  What \<^verbatim>\<open>main\<close> meets outside: the adapters' surroundings, the time read while a uri is
  processed, the moment at which the future of a uri completes (\<^verbatim>\<open>as_completed\<close> yields
  the futures in the order of completion), the two object tables, whether one of the three
  queries raises, and the outcome of the insertion.
\<close>

record ingest_env =
  adapters :: env
  clock_at :: "string \<Rightarrow> string"
  finish_time :: "string \<Rightarrow> nat"
  obj_json :: "obj list"
  obj_csv :: "obj list"
  existing_query_error :: "string option"
  json_query_error :: "string option"
  csv_query_error :: "string option"
  insert_result :: insert_outcome

text \<open>\<^verbatim>\<open>SELECT DISTINCT uri FROM obj_... ORDER BY uri\<close>\<close>

definition select_distinct_uri :: "obj list \<Rightarrow> string list" where
  "select_distinct_uri t = sort (remdups (map obj_uri t))"

definition as_completed :: "(string \<Rightarrow> nat) \<Rightarrow> string list \<Rightarrow> string list" where
  "as_completed finish uris = sort_key finish uris"

text \<open>
  The loop over the completed futures. \<open>kind\<close> is \<^verbatim>\<open>JSON\<close> or \<^verbatim>\<open>CSV\<close> in the log
  lines and \<open>m\<close> the modality written. \<open>Processed_file kind name\<close> stands for the line
  \<^verbatim>\<open>"Processed <kind>: <name>"\<close> and \<open>Failed_file kind name\<close> for
  \<^verbatim>\<open>"Failed <kind>: <name>"\<close>, \<open>name\<close> being the last component of the uri. The line of
  a worker is put before the line of the main thread for the same uri. The lines that only
  report numbers are left out.
\<close>

fun collect ::
  "string \<Rightarrow> string \<Rightarrow> (string \<Rightarrow> string option \<times> log_entry list) \<Rightarrow> string list \<Rightarrow>
   document list \<times> log_entry list" where
  "collect kind m process [] = ([], [])"
| "collect kind m process (u # us) =
     (case process u of
        (content, worker_log) \<Rightarrow>
          (case collect kind m process us of
             (docs, rest_log) \<Rightarrow>
               (case content of
                  None \<Rightarrow>
                    (docs, worker_log @ [Failed_file kind (last (split_on CHR ''/'' u))] @ rest_log)
                | Some t \<Rightarrow>
                    if t \<noteq> []
                    then (\<lparr>d_uri = u, d_modality = m, d_text_content = t\<rparr> # docs,
                          worker_log @ [Processed_file kind (last (split_on CHR ''/'' u))] @
                          rest_log)
                    else (docs,
                          worker_log @ [Failed_file kind (last (split_on CHR ''/'' u))] @
                          rest_log))))"

record main_result =
  main_raised :: "string option"
  main_corpus :: table
  main_log :: "log_entry list"
  json_documents :: "document list"
  csv_documents :: "document list"

definition existing_uris :: "table \<Rightarrow> string set" where
  "existing_uris corpus =
     set (map uri (filter (\<lambda>d. modality d = ''json'' \<or> modality d = ''csv'') corpus))"

definition json_uris :: "ingest_env \<Rightarrow> table \<Rightarrow> string list" where
  "json_uris ie corpus =
     filter (\<lambda>u. u \<notin> existing_uris corpus) (select_distinct_uri (obj_json ie))"

definition csv_uris :: "ingest_env \<Rightarrow> table \<Rightarrow> string list" where
  "csv_uris ie corpus =
     filter (\<lambda>u. u \<notin> existing_uris corpus) (select_distinct_uri (obj_csv ie))"

text \<open>\<^verbatim>\<open>main()\<close> of ingest\_json\_csv.py, run on the table \<^verbatim>\<open>search_corpus\<close>.\<close>

definition ingest_json_csv_main :: "ingest_env \<Rightarrow> table \<Rightarrow> main_result" where
  "ingest_json_csv_main ie corpus =
     (case existing_query_error ie of
        Some err \<Rightarrow>
          \<lparr>main_raised = Some err, main_corpus = corpus, main_log = [],
           json_documents = [], csv_documents = []\<rparr>
      | None \<Rightarrow>
     (case json_query_error ie of
        Some err \<Rightarrow>
          \<lparr>main_raised = Some err, main_corpus = corpus, main_log = [],
           json_documents = [], csv_documents = []\<rparr>
      | None \<Rightarrow>
     (case collect ''JSON'' ''json''
             (\<lambda>u. process_json_file (adapters ie) (clock_at ie u) u)
             (as_completed (finish_time ie) (take 50 (json_uris ie corpus))) of
        (json_docs, json_log) \<Rightarrow>
     (case csv_query_error ie of
        Some err \<Rightarrow>
          \<lparr>main_raised = Some err, main_corpus = corpus, main_log = json_log,
           json_documents = json_docs, csv_documents = []\<rparr>
      | None \<Rightarrow>
     (case collect ''CSV'' ''csv''
             (\<lambda>u. process_csv_file (adapters ie) (clock_at ie u) u)
             (as_completed (finish_time ie) (take 50 (csv_uris ie corpus))) of
        (csv_docs, csv_log) \<Rightarrow>
     (case insert_to_bigquery (insert_result ie) (json_docs @ csv_docs) corpus of
        Inl err \<Rightarrow>
          \<lparr>main_raised = Some err, main_corpus = corpus, main_log = json_log @ csv_log,
           json_documents = json_docs, csv_documents = csv_docs\<rparr>
      | Inr (inserted, corpus') \<Rightarrow>
          \<lparr>main_raised = None, main_corpus = corpus', main_log = json_log @ csv_log,
           json_documents = json_docs, csv_documents = csv_docs\<rparr>))))))"

section \<open>complete\_vision\_analysis: the image adapter\<close>

text \<open>
  What the four Vision calls return for an image: the label annotations (description and
  score), the names of the localized objects, the descriptions of the text annotations,
  and the dominant colors. \<open>label_score\<close> is the text that the format \<^verbatim>\<open>.1%\<close> gives for
  the score, a conversion of a floating-point number that is not modelled; a color is the
  three numbers \<^verbatim>\<open>int(color.color.red)\<close>, \<^verbatim>\<open>green\<close> and \<^verbatim>\<open>blue\<close>.
\<close>

record label_annotation =
  label_description :: string
  label_score :: string

record vision_response =
  labels :: "label_annotation list"
  objects :: "string list"
  texts :: "string list"
  colors :: "(nat \<times> nat \<times> nat) list"

text \<open>\<^verbatim>\<open>str.lower\<close>, \<^verbatim>\<open>str.strip\<close> and \<^verbatim>\<open>word in text\<close> on the first 256 code points.\<close>

definition lower_char :: "char \<Rightarrow> char" where
  "lower_char c =
     (let n = (of_char c :: nat)
      in if (0x41 \<le> n \<and> n \<le> 0x5A) \<or> (0xC0 \<le> n \<and> n \<le> 0xDE \<and> n \<noteq> 0xD7)
         then char_of (n + 32) else c)"

definition lower :: "string \<Rightarrow> string" where
  "lower s = map lower_char s"

definition is_space :: "char \<Rightarrow> bool" where
  "is_space c =
     (let n = (of_char c :: nat)
      in (0x09 \<le> n \<and> n \<le> 0x0D) \<or> (0x1C \<le> n \<and> n \<le> 0x20) \<or> n = 0x85 \<or> n = 0xA0)"

definition strip :: "string \<Rightarrow> string" where
  "strip s = rev (dropWhile is_space (rev (dropWhile is_space s)))"

fun contains :: "string \<Rightarrow> string \<Rightarrow> bool" where
  "contains [] word = (word = [])"
| "contains (x # xs) word = (take (length word) (x # xs) = word \<or> contains xs word)"

text \<open>\<^verbatim>\<open>f"{r:02x}"\<close>: lower-case hexadecimal, at least two digits.\<close>

fun hex_nat :: "nat \<Rightarrow> string" where
  "hex_nat n = (if n < 16 then [digit_char n] else hex_nat (n div 16) @ [digit_char (n mod 16)])"

declare hex_nat.simps [simp del]

definition hex02 :: "nat \<Rightarrow> string" where
  "hex02 n = (if n < 16 then CHR ''0'' # hex_nat n else hex_nat n)"

definition hex_color :: "nat \<times> nat \<times> nat \<Rightarrow> string" where
  "hex_color c = (case c of (r, g, b) \<Rightarrow> ''#'' @ hex02 r @ hex02 g @ hex02 b)"

text \<open>The category added for a label, by the first branch whose words occur in it.\<close>

definition any_word_in :: "string list \<Rightarrow> string \<Rightarrow> bool" where
  "any_word_in ws label_lower = list_ex (contains label_lower) ws"

definition category_of :: "label_annotation \<Rightarrow> string option" where
  "category_of l =
     (let label_lower = lower (label_description l)
      in if any_word_in [''animal'', ''bird'', ''dog'', ''cat''] label_lower then Some ''Animals''
         else if any_word_in [''person'', ''people'', ''face''] label_lower then Some ''People''
         else if any_word_in [''food'', ''cuisine'', ''meal''] label_lower then Some ''Food''
         else if any_word_in [''building'', ''architecture''] label_lower
           then Some ''Architecture''
         else if any_word_in [''plant'', ''tree'', ''flower''] label_lower then Some ''Nature''
         else None)"

definition detected_text :: "string list \<Rightarrow> string list" where
  "detected_text ts =
     (case ts of
        [] \<Rightarrow> []
      | t # _ \<Rightarrow>
          (let text_content = strip (map (\<lambda>c. if c = CHR 0x0A then CHR '' '' else c) t)
           in if text_content = [] then []
              else [''Detected Text: '' @
                    (if length text_content > 200 then take 200 text_content @ ''...''
                     else text_content)]))"

definition description_parts :: "string \<Rightarrow> vision_response \<Rightarrow> string \<Rightarrow> string list" where
  "description_parts image_uri v now =
     (let filename = last (split_on CHR ''/'' image_uri);
          categories = sort (remdups (List.map_filter category_of (take 15 (labels v))))
      in [''Image File: '' @ filename,
          ''Location: '' @ image_uri] @
         (if labels v = [] then []
          else [''Visual Content: '' @
                  join '', '' (take 10 (map label_description (labels v))),
                ''Top Labels: '' @
                  join '', '' (map (\<lambda>l. label_description l @ '' ('' @ label_score l @ '')'')
                                  (take 5 (labels v)))]) @
         (if objects v = [] then []
          else [''Detected Objects: '' @ join '', '' (take 5 (objects v))]) @
         detected_text (texts v) @
         (if colors v = [] then []
          else [''Dominant Colors: '' @ join '', '' (map hex_color (take 3 (colors v)))]) @
         (if categories = [] then [] else [''Categories: '' @ join '', '' categories]) @
         [''Analysis: Complete Vision API content extraction'',
          ''Indexed: '' @ now])"

text \<open>
  What \<^verbatim>\<open>analyze_and_update_image\<close> meets outside: the answers of the Vision calls for a
  uri, or the exception raised by one of them, and whether the update job for a uri
  raises. The statement is
  \<^verbatim>\<open>UPDATE search_corpus SET text_content = @text_content WHERE uri = @uri\<close>.
\<close>

record vision_env =
  annotate :: "string \<Rightarrow> string + vision_response"
  image_update_error :: "string \<Rightarrow> string option"

definition update_text_content :: "string \<Rightarrow> string \<Rightarrow> table \<Rightarrow> table" where
  "update_text_content u t corpus =
     map (\<lambda>d. if uri d = u then d\<lparr>text_content := Some t\<rparr> else d) corpus"

text \<open>
  \<open>Image_done name l n\<close> stands for the line \<^verbatim>\<open>"<name> - <l> labels, <n> objects"\<close> and
  \<open>Image_failed name e\<close> for \<^verbatim>\<open>"<name>: <e>"\<close>, where \<open>name\<close> is the last component
  of the uri; \<open>Image_processing i n name\<close> is the line \<^verbatim>\<open>"[<i>/<n>] Processing <name>..."\<close>
  of the main loop.
\<close>

datatype image_log =
    Image_done string nat nat
  | Image_failed string string
  | Image_processing nat nat string

definition analyze_and_update_image ::
  "vision_env \<Rightarrow> string \<Rightarrow> string \<Rightarrow> table \<Rightarrow> bool \<times> table \<times> image_log list" where
  "analyze_and_update_image ve now image_uri corpus =
     (case annotate ve image_uri of
        Inl err \<Rightarrow> (False, corpus, [Image_failed (last (split_on CHR ''/'' image_uri)) err])
      | Inr v \<Rightarrow>
          (case image_update_error ve image_uri of
             Some err \<Rightarrow>
               (False, corpus, [Image_failed (last (split_on CHR ''/'' image_uri)) err])
           | None \<Rightarrow>
               (True,
                update_text_content image_uri
                  (join [CHR 0x0A] (description_parts image_uri v now)) corpus,
                [Image_done (last (split_on CHR ''/'' image_uri))
                   (length (labels v)) (length (objects v))])))"

text \<open>
  \<^verbatim>\<open>main()\<close> of complete\_vision\_analysis.py: the images not analyzed yet are those of
  \<^verbatim>\<open>SELECT uri FROM search_corpus WHERE modality = 'image' AND (text_content IS NULL OR
  text_content NOT LIKE '%Vision API content extraction%') ORDER BY uri\<close>; they are analyzed
  one after the other, and the successes are counted.
\<close>

definition not_analyzed :: "doc \<Rightarrow> bool" where
  "not_analyzed d \<longleftrightarrow>
     modality d = ''image'' \<and>
     (case text_content d of
        None \<Rightarrow> True
      | Some t \<Rightarrow> \<not> contains t ''Vision API content extraction'')"

definition remaining_uris :: "table \<Rightarrow> string list" where
  "remaining_uris corpus = sort (map uri (filter not_analyzed corpus))"

record vision_main_env =
  vision :: vision_env
  vision_clock_at :: "string \<Rightarrow> string"
  remaining_query_error :: "string option"
  check_query_error :: "string option"

fun analyze_loop ::
  "vision_main_env \<Rightarrow> nat \<Rightarrow> nat \<Rightarrow> string list \<Rightarrow> table \<Rightarrow> nat \<Rightarrow> image_log list \<Rightarrow>
   nat \<times> table \<times> image_log list" where
  "analyze_loop me i n [] corpus success_count lg = (success_count, corpus, lg)"
| "analyze_loop me i n (u # us) corpus success_count lg =
     (case analyze_and_update_image (vision me) (vision_clock_at me u) u corpus of
        (ok, corpus', lines) \<Rightarrow>
          analyze_loop me (i + 1) n us corpus'
            (if ok then success_count + 1 else success_count)
            (lg @ [Image_processing i n (last (split_on CHR ''/'' u))] @ lines))"

record vision_result =
  vision_raised :: "string option"
  vision_corpus :: table
  success_count :: nat
  vision_log :: "image_log list"

definition complete_vision_main :: "vision_main_env \<Rightarrow> table \<Rightarrow> vision_result" where
  "complete_vision_main me corpus =
     (case remaining_query_error me of
        Some err \<Rightarrow>
          \<lparr>vision_raised = Some err, vision_corpus = corpus, success_count = 0, vision_log = []\<rparr>
      | None \<Rightarrow>
          (let remaining = remaining_uris corpus
           in if remaining = []
              then \<lparr>vision_raised = None, vision_corpus = corpus, success_count = 0,
                    vision_log = []\<rparr>
              else (case analyze_loop me 1 (length remaining) remaining corpus 0 [] of
                      (n, corpus', lg) \<Rightarrow>
                        \<lparr>vision_raised = check_query_error me, vision_corpus = corpus',
                         success_count = n, vision_log = lg\<rparr>)))"

section \<open>update\_all\_images\_vision: writing a batch of analyzed images\<close>

text \<open>
  A result of \<^verbatim>\<open>analyze_image\<close>: the \<^verbatim>\<open>dict\<close> with the keys \<^verbatim>\<open>uri\<close>,
  \<^verbatim>\<open>text_content\<close> and \<^verbatim>\<open>success\<close> (the other keys are not read by the writer).
\<close>

record analysis_result =
  r_uri :: string
  r_text_content :: "string option"
  r_success :: bool

text \<open>
  What the writer meets outside. The batch statement is built by pasting the uris and the
  texts of the successful results into one \<^verbatim>\<open>UPDATE ... FROM UNNEST([...])\<close>; running it
  raises, or leaves a table, and which of the two, and which table, is given by
  \<open>batch_statement\<close> from the pairs pasted and the table before. A statement that raises
  changes nothing. \<open>individual_error\<close> tells whether the parameterized statement of
  \<^verbatim>\<open>update_individual\<close> raises for a uri and a text.
\<close>

record batch_env =
  batch_statement :: "(string \<times> string) list \<Rightarrow> table \<Rightarrow> string + table"
  individual_error :: "string \<Rightarrow> string \<Rightarrow> string option"

datatype batch_log =
    Batch_updated nat
  | Batch_failed string
  | Update_failed string string

text \<open>
  \<^verbatim>\<open>update_individual(uri, text_content)\<close>:
  \<^verbatim>\<open>UPDATE search_corpus SET text_content = @text_content WHERE uri = @uri\<close>, an exception
  being logged and swallowed.
\<close>

definition update_individual ::
  "batch_env \<Rightarrow> string \<Rightarrow> string \<Rightarrow> table \<Rightarrow> table \<times> batch_log list" where
  "update_individual be u t corpus =
     (case individual_error be u t of
        Some err \<Rightarrow> (corpus, [Update_failed u err])
      | None \<Rightarrow> (update_text_content u t corpus, []))"

text \<open>The fallback loop \<^verbatim>\<open>for result in successful_results\<close>.\<close>

fun update_each ::
  "batch_env \<Rightarrow> (string \<times> string) list \<Rightarrow> table \<Rightarrow> table \<times> batch_log list" where
  "update_each be [] corpus = (corpus, [])"
| "update_each be ((u, t) # rest) corpus =
     (case update_individual be u t corpus of
        (corpus', lg) \<Rightarrow>
          (case update_each be rest corpus' of
             (corpus'', lg') \<Rightarrow> (corpus'', lg @ lg')))"

text \<open>
  \<^verbatim>\<open>successful_results = [r for r in results if r['success'] and r['text_content']]\<close>,
  as the pairs of uri and text.
\<close>

definition successful_results :: "analysis_result list \<Rightarrow> (string \<times> string) list" where
  "successful_results results =
     List.map_filter
       (\<lambda>r. case r_text_content r of
               None \<Rightarrow> None
             | Some t \<Rightarrow> if r_success r \<and> t \<noteq> [] then Some (r_uri r, t) else None)
       results"

definition update_batch_in_bigquery ::
  "batch_env \<Rightarrow> analysis_result list \<Rightarrow> table \<Rightarrow> table \<times> batch_log list" where
  "update_batch_in_bigquery be results corpus =
     (let successful = successful_results results
      in if successful = [] then (corpus, [])
         else (case batch_statement be successful corpus of
                 Inr corpus' \<Rightarrow> (corpus', [Batch_updated (length successful)])
               | Inl err \<Rightarrow>
                   (case update_each be successful corpus of
                      (corpus', lg) \<Rightarrow> (corpus', Batch_failed err # lg))))"

section \<open>The embedding writer\<close>

text \<open>
  Modelled from the spec: the script \<^verbatim>\<open>fix_embeddings.py\<close>, which grepctl runs to
  generate embeddings, is not among the sources. By sections 4.3 and 4.5 of the
  specification, the repair scans the corpus; a record whose embedding has the dimension
  768 is left alone; for any other record the embedding is cleared, and when the record
  has a text that is not empty the embedding client is called on that text and its vector
  stored, the record being left without embedding when the client fails. The client is
  never called on an absent or empty text. \<open>embed_text\<close> is the client: the vector for a
  text, or \<open>None\<close> when the call fails.
\<close>

definition fix_embeddings :: "(string \<Rightarrow> real list option) \<Rightarrow> table \<Rightarrow> table" where
  "fix_embeddings embed_text corpus =
     map (\<lambda>d. if (case embedding d of Some v \<Rightarrow> length v = 768 | None \<Rightarrow> False) then d
              else (case text_content d of
                      None \<Rightarrow> d\<lparr>embedding := None\<rparr>
                    | Some t \<Rightarrow>
                        if t = [] then d\<lparr>embedding := None\<rparr>
                        else d\<lparr>embedding := embed_text t\<rparr>))
         corpus"

section \<open>Sequences of runs\<close>

text \<open>
  The operations that write the two tables, each with what it meets outside, and the
  store left by a sequence of them for one instance of the setup. \<open>Fix_stuck\<close> runs
  \<^verbatim>\<open>fix_stuck\<close> with the embedding writer above as its script; a call of it outside the
  model leaves the store as it is here, and is excluded by \<open>wf_op\<close>, which also asks
  that the objects of a bucket have different uris.
\<close>

datatype op =
    Create_core_tables bool bool
  | Ingest_simple_data setup_env
  | Create_search_corpus bool
  | Ingest_json_csv ingest_env
  | Complete_vision vision_main_env
  | Fix_stuck "string option" "string option" bool "string \<Rightarrow> real list option"
  | Fix_embeddings "string \<Rightarrow> real list option"

definition on_search_corpus :: "(table \<Rightarrow> table) \<Rightarrow> store \<Rightarrow> store" where
  "on_search_corpus f st = st\<lparr>search_corpus := f (search_corpus st)\<rparr>"

fun step :: "setup_config \<Rightarrow> op \<Rightarrow> store \<Rightarrow> store" where
  "step cfg (Create_core_tables a b) st = create_core_tables a b st"
| "step cfg (Ingest_simple_data se) st = ingest_simple_data cfg se st"
| "step cfg (Create_search_corpus executed) st = create_search_corpus executed st"
| "step cfg (Ingest_json_csv ie) st =
     on_search_corpus (\<lambda>t. main_corpus (ingest_json_csv_main ie t)) st"
| "step cfg (Complete_vision me) st =
     on_search_corpus (\<lambda>t. vision_corpus (complete_vision_main me t)) st"
| "step cfg (Fix_stuck modality_opt err script embed_text) st =
     on_search_corpus
       (\<lambda>t. case fix_stuck \<lparr>update_error = err, script_exists = script,
                              run_script = (\<lambda>c. (True, fix_embeddings embed_text c))\<rparr>
                    modality_opt t of
               None \<Rightarrow> t
             | Some r \<Rightarrow> corpus_after r) st"
| "step cfg (Fix_embeddings embed_text) st = on_search_corpus (fix_embeddings embed_text) st"

fun run :: "setup_config \<Rightarrow> op list \<Rightarrow> store \<Rightarrow> store" where
  "run cfg [] st = st"
| "run cfg (x # xs) st = run cfg xs (step cfg x st)"

definition wf_op :: "op \<Rightarrow> bool" where
  "wf_op x =
     (case x of
        Ingest_simple_data se \<Rightarrow> distinct (map obj_uri (bucket_objects se))
      | Fix_stuck modality_opt err script embed_text \<Rightarrow>
          (case modality_opt of None \<Rightarrow> True | Some m \<Rightarrow> plain_text m)
      | _ \<Rightarrow> True)"

definition empty_store :: store where
  "empty_store = \<lparr>documents = [], search_corpus = []\<rparr>"

section \<open>Invariants of the tables\<close>

text \<open>
  The properties of a table that the proofs carry through a sequence of runs: no two rows
  with the same uri and modality; every row of \<^verbatim>\<open>documents\<close> is a text row written by
  one of the two statements of \<^verbatim>\<open>ingest_simple_data\<close>, from the object table of its
  source; no row has an embedding and no text.
\<close>

definition key :: "doc \<Rightarrow> string \<times> string" where
  "key d = (uri d, modality d)"

definition unique_keys :: "table \<Rightarrow> bool" where
  "unique_keys t \<longleftrightarrow> distinct (map key t)"

definition from_object_tables :: "setup_config \<Rightarrow> table \<Rightarrow> bool" where
  "from_object_tables cfg t \<longleftrightarrow>
     list_all (\<lambda>d. modality d = ''text'' \<and>
        (source d = Some ''file'' \<and>
           starts_with (uri_pattern (gcs_bucket cfg) (gcs_prefix cfg) ''text'') (uri d) \<or>
         source d = Some ''markdown'' \<and>
           starts_with (uri_pattern (gcs_bucket cfg) (gcs_prefix cfg) ''markdown'') (uri d))) t"

definition embedded_have_text :: "table \<Rightarrow> bool" where
  "embedded_have_text t \<longleftrightarrow> list_all (\<lambda>d. embedding d = None \<or> text_content d \<noteq> None) t"

text \<open>A small corpus used to run the operations on concrete rows.\<close>

definition example_corpus :: table where
  "example_corpus =
     [\<lparr>uri = ''gs://b/images/a.png'', modality = ''image'', source = None,
        text_content = Some ''x'', embedding = Some []\<rparr>,
      \<lparr>uri = ''gs://b/csv/a.csv'', modality = ''csv'', source = None,
        text_content = Some ''y'', embedding = None\<rparr>,
      \<lparr>uri = ''gs://b/images/b.png'', modality = ''image'', source = None,
        text_content = Some ''z'', embedding = Some (replicate 768 0)\<rparr>,
      \<lparr>uri = ''gs://b/images/c.png'', modality = ''image'', source = None,
        text_content = Some ''w'', embedding = Some [1, 2]\<rparr>]"



text \<open>
  A bucket with two JSON objects, of which the second is not JSON, and one CSV object,
  with what the parsers give for their contents.
\<close>

definition example_json_content :: string where
  "example_json_content = ''{'' @ [CHR 0x22] @ ''name'' @ [CHR 0x22] @ '': 1}''"

definition example_csv_content :: string where
  "example_csv_content = ''a,b'' @ [CHR 0x0A] @ ''1,x'' @ [CHR 0x0A]"

definition example_adapters :: env where
  "example_adapters =
     \<lparr>download_as_text =
        (\<lambda>bucket_name blob_name.
           if bucket_name = ''bucket'' \<and> blob_name = ''json/a.json'' then Inr example_json_content
           else if bucket_name = ''bucket'' \<and> blob_name = ''json/b.json'' then Inr ''oops''
           else if bucket_name = ''bucket'' \<and> blob_name = ''csv/t.csv'' then Inr example_csv_content
           else Inl ''404 Not Found''),
      json_loads =
        (\<lambda>s. if s = example_json_content then Inr (JDict [(''name'', JInt 1)])
             else Inl ''Expecting value: line 1 column 1 (char 0)''),
      csv_DictReader =
        (\<lambda>s. if s = example_csv_content
             then Inr \<lparr>fieldnames = Some [''a'', ''b''],
                       csv_rows = [[(Some ''a'', CStr ''1''), (Some ''b'', CStr ''x'')]]\<rparr>
             else Inl ''unexpected content''),
      float_parses = (\<lambda>s. s = ''1'')\<rparr>"

definition example_ingest_env :: ingest_env where
  "example_ingest_env =
     \<lparr>adapters = example_adapters,
      clock_at = (\<lambda>u. ''2025-01-01 00:00:00 UTC''),
      finish_time = (\<lambda>u. 0),
      obj_json = [\<lparr>obj_uri = ''gs://bucket/json/b.json'', obj_data = Some ''oops''\<rparr>,
                  \<lparr>obj_uri = ''gs://bucket/json/a.json'', obj_data = Some example_json_content\<rparr>],
      obj_csv = [\<lparr>obj_uri = ''gs://bucket/csv/t.csv'', obj_data = Some example_csv_content\<rparr>],
      existing_query_error = None,
      json_query_error = None,
      csv_query_error = None,
      insert_result = Inserted\<rparr>"

text \<open>
  A sequence of runs for one bucket: setup, both ingestions run twice, and the embedding
  writer with a client that always answers.
\<close>

definition example_config :: setup_config where
  "example_config = \<lparr>gcs_bucket = ''bucket'', gcs_prefix = ''data''\<rparr>"

definition example_setup_env :: setup_env where
  "example_setup_env =
     \<lparr>bucket_objects =
        [\<lparr>obj_uri = ''gs://bucket/data/text/a.txt'', obj_data = Some ''hello''\<rparr>,
         \<lparr>obj_uri = ''gs://bucket/data/markdown/r.md'', obj_data = Some ''# title''\<rparr>,
         \<lparr>obj_uri = ''gs://bucket/data/text/b.bin'', obj_data = None\<rparr>],
      text_query_ran = True,
      markdown_query_ran = True\<rparr>"

definition example_ops :: "op list" where
  "example_ops =
     [Create_core_tables True True,
      Ingest_simple_data example_setup_env,
      Create_search_corpus True,
      Ingest_json_csv example_ingest_env,
      Ingest_simple_data example_setup_env,
      Ingest_json_csv example_ingest_env,
      Fix_embeddings (\<lambda>t. Some (replicate 768 0))]"

section \<open>Properties\<close>

subsection \<open>Counting with SUM and CASE\<close>

lemma sum_case_when_filter:
  "sum_list (map (\<lambda>d. case_when_1_else_0 (c d)) g) = length (filter (\<lambda>d. sql_true (c d)) g)"
  by (induction g) (simp_all add: case_when_1_else_0_def)

lemma array_length_is_iff:
  "sql_true (sql_eq (ARRAY_LENGTH e) n) \<longleftrightarrow> (\<exists>v. e = Some v \<and> length v = n)"
  by (cases e) (simp_all add: sql_true_def sql_eq_def ARRAY_LENGTH_def)

lemma sql_true_Some: "sql_true (Some b) \<longleftrightarrow> b"
  by (simp add: sql_true_def)

lemma filter_filter_conj: "filter P (filter Q xs) = filter (\<lambda>x. Q x \<and> P x) xs"
  by (induction xs) simp_all

lemma plain_text_str_nat: "plain_text (str_nat n)"
proof (induction n rule: str_nat.induct)
  case (1 n)
  have d: "plain_char (digit_char k)" if "k < 10" for k
  proof -
    from that have "k \<in> {0,1,2,3,4,5,6,7,8,9}" by auto
    then show ?thesis by (auto simp: plain_char_def digit_char_def)
  qed
  show ?case
  proof (cases "n < 10")
    case True
    then show ?thesis by (simp add: str_nat.simps [of n] plain_text_def d)
  next
    case False
    with 1 have "plain_text (str_nat (n div 10))" by simp
    moreover have "plain_char (digit_char (n mod 10))" by (rule d) simp
    ultimately show ?thesis using False
      by (simp add: str_nat.simps [of n] plain_text_def)
  qed
qed

lemma those_map_Some:
  "(\<And>x. x \<in> set xs \<Longrightarrow> f x = Some (g x)) \<Longrightarrow> those (map f xs) = Some (map g xs)"
  by (induction xs) simp_all

lemma add_row_plain:
  "plain_text (row_modality r) \<Longrightarrow>
   add_row r = Some [row_modality r, str_nat (total_docs r), str_nat (valid_embeddings r),
        str_nat (null_embeddings r), str_nat (empty_embeddings r)]"
  by (simp add: add_row_def render_str_def plain_text_str_nat)

lemma verify_group_counts:
  "verify_group m (filter (\<lambda>d. modality d = m) c) =
     \<lparr> row_modality = m,
       total_docs = length (filter (\<lambda>d. modality d = m) c),
       valid_embeddings = length (filter (\<lambda>d. modality d = m \<and>
                              (\<exists>v. embedding d = Some v \<and> length v = 768)) c),
       null_embeddings = length (filter (\<lambda>d. modality d = m \<and> embedding d = None) c),
       empty_embeddings = length (filter (\<lambda>d. modality d = m \<and> embedding d = Some []) c) \<rparr>"
proof -
  have e0: "(\<exists>v. embedding d = Some v \<and> length v = 0) \<longleftrightarrow> embedding d = Some []" for d :: doc
    by auto
  show ?thesis
    unfolding verify_group_def
    by (simp add: sum_case_when_filter array_length_is_iff filter_filter_conj e0 sql_true_Some)
qed

lemma index_verify_plain:
  assumes "\<forall>d \<in> set c. plain_text (modality d)"
  shows "index_verify c =
     Some (map (\<lambda>m.
        [m,
         str_nat (length (filter (\<lambda>d. modality d = m) c)),
         str_nat (length (filter (\<lambda>d. modality d = m \<and>
                              (\<exists>v. embedding d = Some v \<and> length v = 768)) c)),
         str_nat (length (filter (\<lambda>d. modality d = m \<and> embedding d = None) c)),
         str_nat (length (filter (\<lambda>d. modality d = m \<and> embedding d = Some []) c))])
       (sort (remdups (map modality c))))"
proof -
  define line where "line = (\<lambda>m.
        [m,
         str_nat (length (filter (\<lambda>d. modality d = m) c)),
         str_nat (length (filter (\<lambda>d. modality d = m \<and>
                              (\<exists>v. embedding d = Some v \<and> length v = 768)) c)),
         str_nat (length (filter (\<lambda>d. modality d = m \<and> embedding d = None) c)),
         str_nat (length (filter (\<lambda>d. modality d = m \<and> embedding d = Some []) c))])"
  have "add_row r = Some (line (row_modality r))" if "r \<in> set (verify_query c)" for r
  proof -
    from that obtain m where m: "m \<in> set (map modality c)"
      and r: "r = verify_group m (filter (\<lambda>d. modality d = m) c)"
      by (auto simp: verify_query_def)
    from m assms have "plain_text m" by auto
    then show ?thesis
      unfolding r verify_group_counts by (simp add: add_row_plain line_def)
  qed
  then have "index_verify c = Some (map (\<lambda>r. line (row_modality r)) (verify_query c))"
    unfolding index_verify_def by (rule those_map_Some)
  also have "map (\<lambda>r. line (row_modality r)) (verify_query c)
      = map line (sort (remdups (map modality c)))"
    by (simp add: verify_query_def verify_group_def comp_def)
  finally show ?thesis unfolding line_def .
qed

text \<open>
  C3. When the modalities in the corpus are plain names, \<^verbatim>\<open>index verify\<close> prints one line
  for every modality that occurs in the corpus and for no other, the lines in ascending
  order of modality without repetition, and the cells of a line are the modality followed
  by four numbers in decimal: the number of records of that modality, the number of them
  whose embedding has length exactly 768, the number whose embedding is null, and the
  number whose embedding is present with length zero.
\<close>

theorem index_verify_counts:
  assumes "\<forall>d \<in> set c. plain_text (modality d)"
  shows "\<exists>report.
     index_verify c = Some report \<and>
     sorted (map hd report) \<and> distinct (map hd report) \<and>
     set (map hd report) = modality ` set c \<and>
     (\<forall>line \<in> set report.
        line =
          [hd line,
           str_nat (length (filter (\<lambda>d. modality d = hd line) c)),
           str_nat (length (filter (\<lambda>d. modality d = hd line \<and>
                              (\<exists>v. embedding d = Some v \<and> length v = 768)) c)),
           str_nat (length (filter (\<lambda>d. modality d = hd line \<and> embedding d = None) c)),
           str_nat (length (filter (\<lambda>d. modality d = hd line \<and> embedding d = Some []) c))])"
proof -
  let ?ms = "sort (remdups (map modality c))"
  define line where "line = (\<lambda>m.
        [m,
         str_nat (length (filter (\<lambda>d. modality d = m) c)),
         str_nat (length (filter (\<lambda>d. modality d = m \<and>
                              (\<exists>v. embedding d = Some v \<and> length v = 768)) c)),
         str_nat (length (filter (\<lambda>d. modality d = m \<and> embedding d = None) c)),
         str_nat (length (filter (\<lambda>d. modality d = m \<and> embedding d = Some []) c))])"
  let ?report = "map line ?ms"
  have hd: "map hd ?report = ?ms"
    by (simp add: comp_def line_def)
  have "index_verify c = Some ?report"
    using index_verify_plain [OF assms] unfolding line_def .
  moreover have "sorted (map hd ?report)" "distinct (map hd ?report)"
    "set (map hd ?report) = modality ` set c"
    unfolding hd by simp_all
  moreover have "\<forall>l \<in> set ?report. l = line (hd l)"
    by (auto simp: line_def)
  ultimately show ?thesis
    unfolding line_def by blast
qed

theorem index_verify_counts_witness:
  "list_all (\<lambda>d. plain_text (modality d)) example_corpus \<and>
   index_verify example_corpus =
     Some [[''csv'', ''1'', ''0'', ''1'', ''0''], [''image'', ''3'', ''1'', ''0'', ''1'']] \<and>
   (\<exists>report. index_verify example_corpus = Some report \<and>
      set (map hd report) = modality ` set example_corpus)"
proof -
  have p: "list_all (\<lambda>d. plain_text (modality d)) example_corpus"
    by (simp add: example_corpus_def plain_text_def plain_char_def)
  then have "\<forall>d \<in> set example_corpus. plain_text (modality d)"
    by (simp add: list_all_iff)
  from index_verify_counts [OF this]
  have ex: "\<exists>report. index_verify example_corpus = Some report \<and>
      set (map hd report) = modality ` set example_corpus"
    by blast
  have ev: "index_verify example_corpus =
     Some [[''csv'', ''1'', ''0'', ''1'', ''0''], [''image'', ''3'', ''1'', ''0'', ''1'']]"
    by (simp add: example_corpus_def index_verify_def verify_query_def verify_group_def
        add_row_def render_str_def plain_text_def plain_char_def digit_char_def
        str_nat.simps case_when_1_else_0_def sql_true_def sql_eq_def ARRAY_LENGTH_def)
  from p ev ex show ?thesis by (intro conjI)
qed

subsection \<open>fix stuck\<close>








subsection \<open>The JSON/CSV run\<close>

lemma collect_uris:
  "map d_uri (fst (collect kind m process us)) =
     filter (\<lambda>u. \<exists>t. fst (process u) = Some t \<and> t \<noteq> []) us"
  by (induction us) (auto split: prod.splits option.splits)

lemma collect_modality:
  "d \<in> set (fst (collect kind m process us)) \<Longrightarrow> d_modality d = m"
  by (induction us) (auto split: prod.splits option.splits if_splits)

lemma collect_text:
  "d \<in> set (fst (collect kind m process us)) \<Longrightarrow>
     fst (process (d_uri d)) = Some (d_text_content d) \<and> d_text_content d \<noteq> []"
  by (induction us) (auto split: prod.splits option.splits if_splits)

lemma collect_length: "length (fst (collect kind m process us)) \<le> length us"
proof -
  have "length (map d_uri (fst (collect kind m process us))) \<le> length us"
    unfolding collect_uris by (rule length_filter_le)
  then show ?thesis by simp
qed

lemma collect_subset: "d \<in> set (fst (collect kind m process us)) \<Longrightarrow> d_uri d \<in> set us"
proof -
  assume "d \<in> set (fst (collect kind m process us))"
  then have "d_uri d \<in> set (map d_uri (fst (collect kind m process us)))" by simp
  then show ?thesis unfolding collect_uris by simp
qed

lemma collect_distinct:
  "distinct us \<Longrightarrow> distinct (map d_uri (fst (collect kind m process us)))"
  unfolding collect_uris by simp

lemma as_completed_set: "set (as_completed f us) = set us"
  by (simp add: as_completed_def)

lemma as_completed_length: "length (as_completed f us) = length us"
  by (simp add: as_completed_def)

lemma as_completed_distinct: "distinct (as_completed f us) = distinct us"
  by (simp add: as_completed_def)

lemma json_uris_sorted: "sorted (json_uris ie corpus) \<and> distinct (json_uris ie corpus)"
  by (simp add: json_uris_def select_distinct_uri_def sorted_wrt_filter)

lemma csv_uris_sorted: "sorted (csv_uris ie corpus) \<and> distinct (csv_uris ie corpus)"
  by (simp add: csv_uris_def select_distinct_uri_def sorted_wrt_filter)

lemma json_uris_set:
  "set (json_uris ie corpus) = obj_uri ` set (obj_json ie) - existing_uris corpus"
  by (auto simp: json_uris_def select_distinct_uri_def)

lemma csv_uris_set:
  "set (csv_uris ie corpus) = obj_uri ` set (obj_csv ie) - existing_uris corpus"
  by (auto simp: csv_uris_def select_distinct_uri_def)

lemma main_documents:
  "json_documents (ingest_json_csv_main ie corpus) = [] \<or>
   json_documents (ingest_json_csv_main ie corpus) =
     fst (collect ''JSON'' ''json'' (\<lambda>u. process_json_file (adapters ie) (clock_at ie u) u)
            (as_completed (finish_time ie) (take 50 (json_uris ie corpus))))"
  "csv_documents (ingest_json_csv_main ie corpus) = [] \<or>
   csv_documents (ingest_json_csv_main ie corpus) =
     fst (collect ''CSV'' ''csv'' (\<lambda>u. process_csv_file (adapters ie) (clock_at ie u) u)
            (as_completed (finish_time ie) (take 50 (csv_uris ie corpus))))"
  by (auto simp: ingest_json_csv_main_def split: option.splits prod.splits sum.splits)

lemma main_corpus_cases:
  "main_corpus (ingest_json_csv_main ie corpus) = corpus \<or>
   main_corpus (ingest_json_csv_main ie corpus) =
     corpus @ rows_to_insert (json_documents (ingest_json_csv_main ie corpus) @
                              csv_documents (ingest_json_csv_main ie corpus))"
  by (auto simp: ingest_json_csv_main_def insert_to_bigquery_def
      split: option.splits prod.splits sum.splits insert_outcome.splits if_splits)

lemma main_json_documents:
  assumes "d \<in> set (json_documents (ingest_json_csv_main ie corpus))"
  shows "d_modality d = ''json'' \<and> d_uri d \<in> set (take 50 (json_uris ie corpus))"
proof -
  let ?c = "collect ''JSON'' ''json'' (\<lambda>u. process_json_file (adapters ie) (clock_at ie u) u)
            (as_completed (finish_time ie) (take 50 (json_uris ie corpus)))"
  from assms main_documents(1) [of ie corpus] have d: "d \<in> set (fst ?c)" by auto
  from collect_modality [OF d] collect_subset [OF d] show ?thesis
    by (simp add: as_completed_set)
qed

lemma main_csv_documents:
  assumes "d \<in> set (csv_documents (ingest_json_csv_main ie corpus))"
  shows "d_modality d = ''csv'' \<and> d_uri d \<in> set (take 50 (csv_uris ie corpus))"
proof -
  let ?c = "collect ''CSV'' ''csv'' (\<lambda>u. process_csv_file (adapters ie) (clock_at ie u) u)
            (as_completed (finish_time ie) (take 50 (csv_uris ie corpus)))"
  from assms main_documents(2) [of ie corpus] have d: "d \<in> set (fst ?c)" by auto
  from collect_modality [OF d] collect_subset [OF d] show ?thesis
    by (simp add: as_completed_set)
qed

lemma main_documents_length:
  "length (json_documents (ingest_json_csv_main ie corpus)) \<le> 50"
  "length (csv_documents (ingest_json_csv_main ie corpus)) \<le> 50"
proof -
  have "length (fst (collect k m p (as_completed f (take 50 us)))) \<le> 50" for k m p f us
    using collect_length [of k m p "as_completed f (take 50 us)"]
    by (simp add: as_completed_length)
  then show "length (json_documents (ingest_json_csv_main ie corpus)) \<le> 50"
    "length (csv_documents (ingest_json_csv_main ie corpus)) \<le> 50"
    using main_documents [of ie corpus] by auto
qed

lemma main_documents_distinct:
  "distinct (map d_uri (json_documents (ingest_json_csv_main ie corpus)))"
  "distinct (map d_uri (csv_documents (ingest_json_csv_main ie corpus)))"
proof -
  have "distinct (map d_uri (fst (collect k m p (as_completed f (take 50 (json_uris ie corpus))))))"
    for k m p f
    by (rule collect_distinct) (simp add: as_completed_distinct json_uris_sorted)
  then show "distinct (map d_uri (json_documents (ingest_json_csv_main ie corpus)))"
    using main_documents(1) [of ie corpus] by auto
  have "distinct (map d_uri (fst (collect k m p (as_completed f (take 50 (csv_uris ie corpus))))))"
    for k m p f
    by (rule collect_distinct) (simp add: as_completed_distinct csv_uris_sorted)
  then show "distinct (map d_uri (csv_documents (ingest_json_csv_main ie corpus)))"
    using main_documents(2) [of ie corpus] by auto
qed

text \<open>
  C9. In one run of the JSON/CSV ingestion the pending uris of each kind are the distinct
  uris of the object table that no json or csv record of the corpus has, in ascending
  order; the run leaves the corpus followed by new rows, at most 100 of them, at most 50
  json and at most 50 csv; every new row is a json row for one of the first 50 pending
  JSON uris or a csv row for one of the first 50 pending CSV uris; and no new row is
  written for a pending uri beyond the first 50 of its kind.
\<close>

theorem main_first_fifty:
  "sorted (json_uris ie corpus) \<and> distinct (json_uris ie corpus) \<and>
   sorted (csv_uris ie corpus) \<and> distinct (csv_uris ie corpus) \<and>
   set (json_uris ie corpus) = obj_uri ` set (obj_json ie) - existing_uris corpus \<and>
   set (csv_uris ie corpus) = obj_uri ` set (obj_csv ie) - existing_uris corpus \<and>
   (\<exists>new.
      main_corpus (ingest_json_csv_main ie corpus) = corpus @ new \<and>
      length new \<le> 100 \<and>
      length (filter (\<lambda>d. modality d = ''json'') new) \<le> 50 \<and>
      length (filter (\<lambda>d. modality d = ''csv'') new) \<le> 50 \<and>
      (\<forall>d \<in> set new.
         modality d = ''json'' \<and> uri d \<in> set (take 50 (json_uris ie corpus)) \<or>
         modality d = ''csv'' \<and> uri d \<in> set (take 50 (csv_uris ie corpus))) \<and>
      (\<forall>d \<in> set new.
         (modality d = ''json'' \<longrightarrow> uri d \<notin> set (drop 50 (json_uris ie corpus))) \<and>
         (modality d = ''csv'' \<longrightarrow> uri d \<notin> set (drop 50 (csv_uris ie corpus)))))"
proof -
  let ?r = "ingest_json_csv_main ie corpus"
  let ?J = "json_documents ?r" and ?C = "csv_documents ?r"
  have disj: "set (take 50 us) \<inter> set (drop 50 us) = {}" if "distinct us" for us :: "string list"
    using that distinct_append [of "take 50 us" "drop 50 us"] by simp
  have rows: "modality d = ''json'' \<and> uri d \<in> set (take 50 (json_uris ie corpus)) \<or>
         modality d = ''csv'' \<and> uri d \<in> set (take 50 (csv_uris ie corpus))"
    if "d \<in> set (rows_to_insert (?J @ ?C))" for d
    using that main_json_documents [of _ ie corpus] main_csv_documents [of _ ie corpus]
    by (auto simp: rows_to_insert_def)
  have lr: "length (rows_to_insert ds) = length ds" for ds
    by (simp add: rows_to_insert_def)
  have ra: "rows_to_insert (?J @ ?C) = rows_to_insert ?J @ rows_to_insert ?C"
    by (simp add: rows_to_insert_def)
  have jl: "length (filter (\<lambda>d. modality d = ''json'') (rows_to_insert (?J @ ?C))) \<le> 50"
  proof -
    have "filter (\<lambda>d. modality d = ''json'') (rows_to_insert ?C) = []"
      using main_csv_documents [of _ ie corpus]
      by (auto simp: rows_to_insert_def filter_empty_conv)
    moreover have "length (filter (\<lambda>d. modality d = ''json'') (rows_to_insert ?J)) \<le> length ?J"
      using length_filter_le [of "\<lambda>d. modality d = ''json''" "rows_to_insert ?J"]
      unfolding lr .
    ultimately show ?thesis
      using main_documents_length(1) [of ie corpus] unfolding ra by simp
  qed
  have cl: "length (filter (\<lambda>d. modality d = ''csv'') (rows_to_insert (?J @ ?C))) \<le> 50"
  proof -
    have "filter (\<lambda>d. modality d = ''csv'') (rows_to_insert ?J) = []"
      using main_json_documents [of _ ie corpus]
      by (auto simp: rows_to_insert_def filter_empty_conv)
    moreover have "length (filter (\<lambda>d. modality d = ''csv'') (rows_to_insert ?C)) \<le> length ?C"
      using length_filter_le [of "\<lambda>d. modality d = ''csv''" "rows_to_insert ?C"]
      unfolding lr .
    ultimately show ?thesis
      using main_documents_length(2) [of ie corpus] unfolding ra by simp
  qed
  have len: "length (rows_to_insert (?J @ ?C)) \<le> 100"
    using main_documents_length [of ie corpus] by (simp add: rows_to_insert_def)
  define new where "new = (if main_corpus ?r = corpus then [] else rows_to_insert (?J @ ?C))"
  have c: "main_corpus ?r = corpus @ new"
    using main_corpus_cases [of ie corpus] by (auto simp: new_def)
  have n1: "length new \<le> 100" using len by (simp add: new_def)
  have n2: "length (filter (\<lambda>d. modality d = ''json'') new) \<le> 50"
    using jl by (simp add: new_def)
  have n3: "length (filter (\<lambda>d. modality d = ''csv'') new) \<le> 50"
    using cl by (simp add: new_def)
  have n4: "\<forall>d \<in> set new.
         modality d = ''json'' \<and> uri d \<in> set (take 50 (json_uris ie corpus)) \<or>
         modality d = ''csv'' \<and> uri d \<in> set (take 50 (csv_uris ie corpus))"
    using rows by (auto simp: new_def split: if_splits)
  have n5: "\<forall>d \<in> set new.
         (modality d = ''json'' \<longrightarrow> uri d \<notin> set (drop 50 (json_uris ie corpus))) \<and>
         (modality d = ''csv'' \<longrightarrow> uri d \<notin> set (drop 50 (csv_uris ie corpus)))"
    using n4 disj [of "json_uris ie corpus"] disj [of "csv_uris ie corpus"]
      json_uris_sorted [of ie corpus] csv_uris_sorted [of ie corpus]
    by fastforce
  from c n1 n2 n3 n4 n5 have "\<exists>new.
      main_corpus ?r = corpus @ new \<and>
      length new \<le> 100 \<and>
      length (filter (\<lambda>d. modality d = ''json'') new) \<le> 50 \<and>
      length (filter (\<lambda>d. modality d = ''csv'') new) \<le> 50 \<and>
      (\<forall>d \<in> set new.
         modality d = ''json'' \<and> uri d \<in> set (take 50 (json_uris ie corpus)) \<or>
         modality d = ''csv'' \<and> uri d \<in> set (take 50 (csv_uris ie corpus))) \<and>
      (\<forall>d \<in> set new.
         (modality d = ''json'' \<longrightarrow> uri d \<notin> set (drop 50 (json_uris ie corpus))) \<and>
         (modality d = ''csv'' \<longrightarrow> uri d \<notin> set (drop 50 (csv_uris ie corpus))))"
    by blast
  with json_uris_sorted [of ie corpus] csv_uris_sorted [of ie corpus]
    json_uris_set [of ie corpus] csv_uris_set [of ie corpus]
  show ?thesis by (intro conjI) blast+
qed

theorem main_first_fifty_witness:
  "json_uris example_ingest_env example_corpus =
     [''gs://bucket/json/a.json'', ''gs://bucket/json/b.json''] \<and>
   map uri (main_corpus (ingest_json_csv_main example_ingest_env example_corpus))
     = map uri example_corpus @ [''gs://bucket/json/a.json'', ''gs://bucket/csv/t.csv''] \<and>
   (\<exists>new. main_corpus (ingest_json_csv_main example_ingest_env example_corpus)
             = example_corpus @ new \<and> length new \<le> 100)"
proof -
  have a: "json_uris example_ingest_env example_corpus =
     [''gs://bucket/json/a.json'', ''gs://bucket/json/b.json'']"
    by code_simp
  have b: "map uri (main_corpus (ingest_json_csv_main example_ingest_env example_corpus))
     = map uri example_corpus @ [''gs://bucket/json/a.json'', ''gs://bucket/csv/t.csv'']"
    by code_simp
  from main_first_fifty [of example_ingest_env example_corpus]
  have c: "\<exists>new. main_corpus (ingest_json_csv_main example_ingest_env example_corpus)
             = example_corpus @ new \<and> length new \<le> 100"
    by blast
  from a b c show ?thesis by (intro conjI)
qed

subsection \<open>What the runs keep\<close>

lemma update_text_content_keys:
  "map uri (update_text_content u t c) = map uri c"
  "map modality (update_text_content u t c) = map modality c"
  "map embedding (update_text_content u t c) = map embedding c"
  by (simp_all add: update_text_content_def comp_def if_distrib [of uri]
      if_distrib [of modality] if_distrib [of embedding])

lemma analyze_keys:
  "map uri (fst (snd (analyze_and_update_image ve now u c))) = map uri c"
  "map modality (fst (snd (analyze_and_update_image ve now u c))) = map modality c"
  "map embedding (fst (snd (analyze_and_update_image ve now u c))) = map embedding c"
  by (simp_all add: analyze_and_update_image_def update_text_content_keys
      split: sum.splits option.splits)

lemma analyze_loop_keys:
  "map uri (fst (snd (analyze_loop me i n us c k lg))) = map uri c \<and>
   map modality (fst (snd (analyze_loop me i n us c k lg))) = map modality c \<and>
   map embedding (fst (snd (analyze_loop me i n us c k lg))) = map embedding c"
proof (induction us arbitrary: i c k lg)
  case Nil
  show ?case by simp
next
  case (Cons u us)
  obtain ok c' lines where a:
    "analyze_and_update_image (vision me) (vision_clock_at me u) u c = (ok, c', lines)"
    by (cases "analyze_and_update_image (vision me) (vision_clock_at me u) u c")
  from analyze_keys [of "vision me" "vision_clock_at me u" u c] a
  have "map uri c' = map uri c" "map modality c' = map modality c"
    "map embedding c' = map embedding c"
    by simp_all
  with Cons.IH [of "i + 1" c'] a show ?case by simp
qed

lemma vision_main_keys:
  "map uri (vision_corpus (complete_vision_main me c)) = map uri c"
  "map modality (vision_corpus (complete_vision_main me c)) = map modality c"
  "map embedding (vision_corpus (complete_vision_main me c)) = map embedding c"
proof -
  obtain n c' lg where a:
    "analyze_loop me 1 (length (remaining_uris c)) (remaining_uris c) c 0 [] = (n, c', lg)"
    by (cases "analyze_loop me 1 (length (remaining_uris c)) (remaining_uris c) c 0 []")
  from analyze_loop_keys [of me 1 "length (remaining_uris c)" "remaining_uris c" c 0 "[]"] a
  have "map uri c' = map uri c" "map modality c' = map modality c"
    "map embedding c' = map embedding c"
    by simp_all
  with a show "map uri (vision_corpus (complete_vision_main me c)) = map uri c"
    "map modality (vision_corpus (complete_vision_main me c)) = map modality c"
    "map embedding (vision_corpus (complete_vision_main me c)) = map embedding c"
    by (simp_all add: complete_vision_main_def Let_def split: option.splits)
qed

lemma fix_embeddings_keys:
  "map uri (fix_embeddings e c) = map uri c"
  "map modality (fix_embeddings e c) = map modality c"
  "map text_content (fix_embeddings e c) = map text_content c"
  by (simp_all add: fix_embeddings_def comp_def split: option.splits)

lemma clear_empty_keys:
  "map uri (clear_empty_embeddings cond c) = map uri c"
  "map modality (clear_empty_embeddings cond c) = map modality c"
  "map text_content (clear_empty_embeddings cond c) = map text_content c"
  by (simp_all add: clear_empty_embeddings_def comp_def if_distrib [of uri]
      if_distrib [of modality] if_distrib [of text_content])

lemma fix_stuck_corpus:
  assumes "fix_stuck \<lparr>update_error = err, script_exists = script,
                      run_script = (\<lambda>c. (True, fix_embeddings e c))\<rparr> m t = Some r"
  shows "corpus_after r = t \<or>
         (\<exists>cond. corpus_after r = clear_empty_embeddings cond t) \<or>
         (\<exists>cond. corpus_after r = fix_embeddings e (clear_empty_embeddings cond t))"
  using assms
  by (auto simp: fix_stuck_def run_python_script_def Let_def
      split: option.splits if_splits)


subsection \<open>Uniqueness of uri and modality\<close>

lemma starts_with_iff: "starts_with p s \<longleftrightarrow> (\<exists>r. s = p @ r)"
proof
  assume "starts_with p s"
  then have "s = p @ drop (length p) s"
    unfolding starts_with_def by (metis append_take_drop_id)
  then show "\<exists>r. s = p @ r" ..
next
  assume "\<exists>r. s = p @ r"
  then show "starts_with p s" by (auto simp: starts_with_def)
qed

lemma pattern_disjoint:
  "starts_with (uri_pattern b p ''text'') u \<Longrightarrow> \<not> starts_with (uri_pattern b p ''markdown'') u"
  by (auto simp: starts_with_iff uri_pattern_def)

lemma unique_keys_count:
  assumes "unique_keys t"
  shows "length (filter (\<lambda>d. uri d = u \<and> modality d = m) t) \<le> 1"
proof -
  have "length (filter (\<lambda>d. f d = k) xs) \<le> 1" if "distinct (map f xs)" for f :: "doc \<Rightarrow> string \<times> string" and k xs
    using that
  proof (induction xs)
    case Nil
    show ?case by simp
  next
    case (Cons x xs)
    show ?case
    proof (cases "f x = k")
      case True
      from Cons.prems have "f x \<notin> f ` set xs" by simp
      with True have "\<forall>y \<in> set xs. f y \<noteq> k" by (metis imageI)
      then have "filter (\<lambda>d. f d = k) xs = []"
        by (simp add: filter_empty_conv)
      with True show ?thesis by simp
    next
      case False
      with Cons show ?thesis by simp
    qed
  qed
  from this [of key t "(u, m)"] assms show ?thesis
    by (simp add: unique_keys_def key_def)
qed

lemma unique_keys_same:
  "map uri t' = map uri t \<Longrightarrow> map modality t' = map modality t \<Longrightarrow>
   unique_keys t' = unique_keys t"
proof -
  assume "map uri t' = map uri t" "map modality t' = map modality t"
  moreover have "map key x = zip (map uri x) (map modality x)" for x
    by (induction x) (simp_all add: key_def)
  ultimately show ?thesis by (simp add: unique_keys_def)
qed

lemma object_table_uris:
  "ob \<in> set (object_table b p m objs) \<Longrightarrow> starts_with (uri_pattern b p m) (obj_uri ob)"
  by (simp add: object_table_def)

lemma object_table_distinct:
  "distinct (map obj_uri objs) \<Longrightarrow> distinct (map obj_uri (object_table b p m objs))"
  by (simp add: object_table_def distinct_map_filter)

lemma text_query_unique:
  assumes "unique_keys docs" and "distinct (map obj_uri objs)"
  shows "unique_keys (text_query objs docs)"
proof -
  let ?new = "filter (\<lambda>ob. obj_uri ob \<notin> set (map uri (filter (\<lambda>d. modality d = ''text'') docs))) objs"
  have k: "map key (text_query objs docs) = map key docs @ map (\<lambda>ob. (obj_uri ob, ''text'')) ?new"
    by (simp add: text_query_def key_def comp_def)
  have "distinct (map obj_uri ?new)"
    using assms(2) by (rule distinct_map_filter)
  then have d: "distinct (map (\<lambda>ob. (obj_uri ob, ''text'')) ?new)"
    by (simp add: distinct_map inj_on_def)
  have "set (map key docs) \<inter> set (map (\<lambda>ob. (obj_uri ob, ''text'')) ?new) = {}"
    by (force simp: key_def)
  with d assms(1) show ?thesis
    unfolding unique_keys_def k by simp
qed

lemma markdown_query_unique:
  assumes "unique_keys docs" and "distinct (map obj_uri objs)"
    and "from_object_tables cfg docs"
    and "\<forall>ob \<in> set objs.
           starts_with (uri_pattern (gcs_bucket cfg) (gcs_prefix cfg) ''markdown'') (obj_uri ob)"
  shows "unique_keys (markdown_query objs docs)"
proof -
  let ?new = "filter (\<lambda>ob. obj_uri ob \<notin>
                 set (map uri (filter (\<lambda>d. source d = Some ''markdown'') docs))) objs"
  have k: "map key (markdown_query objs docs) =
      map key docs @ map (\<lambda>ob. (obj_uri ob, ''text'')) ?new"
    by (simp add: markdown_query_def key_def comp_def)
  have "distinct (map obj_uri ?new)"
    using assms(2) by (rule distinct_map_filter)
  then have d: "distinct (map (\<lambda>ob. (obj_uri ob, ''text'')) ?new)"
    by (simp add: distinct_map inj_on_def)
  have "key x \<noteq> (obj_uri ob, ''text'')" if x: "x \<in> set docs" and ob: "ob \<in> set ?new" for x ob
  proof
    assume e: "key x = (obj_uri ob, ''text'')"
    then have u: "uri x = obj_uri ob" by (simp add: key_def)
    from ob assms(4) have m: "starts_with
        (uri_pattern (gcs_bucket cfg) (gcs_prefix cfg) ''markdown'') (uri x)"
      by (simp add: u)
    from x assms(3) have "source x = Some ''file'' \<and>
           starts_with (uri_pattern (gcs_bucket cfg) (gcs_prefix cfg) ''text'') (uri x) \<or>
         source x = Some ''markdown''"
      by (auto simp: from_object_tables_def list_all_iff)
    then show False
    proof
      assume "source x = Some ''file'' \<and>
           starts_with (uri_pattern (gcs_bucket cfg) (gcs_prefix cfg) ''text'') (uri x)"
      with m pattern_disjoint show False by blast
    next
      assume "source x = Some ''markdown''"
      with x have "uri x \<in> set (map uri (filter (\<lambda>d. source d = Some ''markdown'') docs))"
        by auto
      with ob u show False by simp
    qed
  qed
  then have "set (map key docs) \<inter> set (map (\<lambda>ob. (obj_uri ob, ''text'')) ?new) = {}"
    by force
  with d assms(1) show ?thesis
    unfolding unique_keys_def k by simp
qed

lemma text_query_from_tables:
  assumes "from_object_tables cfg docs"
  shows "from_object_tables cfg (text_query (obj_text cfg se) docs)"
  using assms
  by (auto simp: from_object_tables_def text_query_def obj_text_def list_all_iff
      dest: object_table_uris)

lemma markdown_query_from_tables:
  assumes "from_object_tables cfg docs"
  shows "from_object_tables cfg (markdown_query (obj_markdown cfg se) docs)"
  using assms
  by (auto simp: from_object_tables_def markdown_query_def obj_markdown_def list_all_iff
      dest: object_table_uris)

lemma ingest_simple_data_keeps:
  assumes "unique_keys (documents st)" and "from_object_tables cfg (documents st)"
    and "distinct (map obj_uri (bucket_objects se))"
  shows "unique_keys (documents (ingest_simple_data cfg se st)) \<and>
         from_object_tables cfg (documents (ingest_simple_data cfg se st)) \<and>
         search_corpus (ingest_simple_data cfg se st) = search_corpus st"
proof -
  define docs1 where "docs1 =
    (if text_query_ran se then text_query (obj_text cfg se) (documents st) else documents st)"
  have dt: "distinct (map obj_uri (obj_text cfg se))"
    and dm: "distinct (map obj_uri (obj_markdown cfg se))"
    using assms(3) by (simp_all add: obj_text_def obj_markdown_def object_table_distinct)
  have u1: "unique_keys docs1"
    using assms(1) dt by (simp add: docs1_def text_query_unique)
  have f1: "from_object_tables cfg docs1"
    using assms(2) by (simp add: docs1_def text_query_from_tables)
  have md: "\<forall>ob \<in> set (obj_markdown cfg se).
           starts_with (uri_pattern (gcs_bucket cfg) (gcs_prefix cfg) ''markdown'') (obj_uri ob)"
    by (auto simp: obj_markdown_def dest: object_table_uris)
  have u2: "unique_keys (markdown_query (obj_markdown cfg se) docs1)"
    using u1 dm f1 md by (rule markdown_query_unique)
  have f2: "from_object_tables cfg (markdown_query (obj_markdown cfg se) docs1)"
    using f1 by (rule markdown_query_from_tables)
  show ?thesis
    using u1 f1 u2 f2
    by (simp add: ingest_simple_data_def Let_def docs1_def [symmetric])
qed

lemma create_search_corpus_unique:
  assumes "unique_keys (documents st)" and "unique_keys (search_corpus st)"
  shows "unique_keys (search_corpus (create_search_corpus executed st))"
proof (cases executed)
  case False
  with assms show ?thesis by (simp add: create_search_corpus_def)
next
  case True
  have kk: "map key (map (\<lambda>d. d\<lparr>embedding := None\<rparr>) xs) = map key xs" for xs
    by (induction xs) (simp_all add: key_def)
  have "distinct (map key (filter (\<lambda>d. text_content d \<noteq> None) (documents st)))"
    using assms(1) unfolding unique_keys_def by (rule distinct_map_filter)
  then have "unique_keys (map (\<lambda>d. d\<lparr>embedding := None\<rparr>)
      (filter (\<lambda>d. text_content d \<noteq> None) (documents st)))"
    unfolding unique_keys_def kk .
  with True show ?thesis by (simp add: create_search_corpus_def)
qed

lemma main_unique:
  assumes "unique_keys corpus"
  shows "unique_keys (main_corpus (ingest_json_csv_main ie corpus))"
proof -
  let ?r = "ingest_json_csv_main ie corpus"
  let ?J = "json_documents ?r" and ?C = "csv_documents ?r"
  have kj: "map key (rows_to_insert ?J) = map (\<lambda>u. (u, ''json'')) (map d_uri ?J)"
    using main_json_documents [of _ ie corpus]
    by (auto simp: rows_to_insert_def key_def)
  have kc: "map key (rows_to_insert ?C) = map (\<lambda>u. (u, ''csv'')) (map d_uri ?C)"
    using main_csv_documents [of _ ie corpus]
    by (auto simp: rows_to_insert_def key_def)
  have dj: "distinct (map (\<lambda>u. (u, ''json'')) (map d_uri ?J))"
    using main_documents_distinct(1) [of ie corpus]
    by (simp add: distinct_map inj_on_def)
  have dc: "distinct (map (\<lambda>u. (u, ''csv'')) (map d_uri ?C))"
    using main_documents_distinct(2) [of ie corpus]
    by (simp add: distinct_map inj_on_def)
  have ex: "u \<in> existing_uris corpus"
    if "(u, m) \<in> set (map key corpus)" and "m = ''json'' \<or> m = ''csv''" for u m
    using that by (auto simp: existing_uris_def key_def)
  have nj: "d_uri d \<notin> existing_uris corpus" if "d \<in> set ?J" for d
    using main_json_documents [OF that] json_uris_set [of ie corpus]
    by (auto dest: in_set_takeD)
  have nc: "d_uri d \<notin> existing_uris corpus" if "d \<in> set ?C" for d
    using main_csv_documents [OF that] csv_uris_set [of ie corpus]
    by (auto dest: in_set_takeD)
  have "distinct (map key corpus @ map key (rows_to_insert ?J) @ map key (rows_to_insert ?C))"
    unfolding kj kc using assms dj dc ex nj nc
    by (auto simp: unique_keys_def)
  then have "unique_keys (corpus @ rows_to_insert (?J @ ?C))"
    by (simp add: unique_keys_def rows_to_insert_def)
  with assms main_corpus_cases [of ie corpus] show ?thesis by auto
qed

lemma fix_stuck_step_keys:
  "map uri (case fix_stuck \<lparr>update_error = err, script_exists = script,
                              run_script = (\<lambda>c. (True, fix_embeddings e c))\<rparr> m t of
               None \<Rightarrow> t | Some r \<Rightarrow> corpus_after r) = map uri t \<and>
   map modality (case fix_stuck \<lparr>update_error = err, script_exists = script,
                              run_script = (\<lambda>c. (True, fix_embeddings e c))\<rparr> m t of
               None \<Rightarrow> t | Some r \<Rightarrow> corpus_after r) = map modality t"
proof (cases "fix_stuck \<lparr>update_error = err, script_exists = script,
                              run_script = (\<lambda>c. (True, fix_embeddings e c))\<rparr> m t")
  case None
  then show ?thesis by simp
next
  case (Some r)
  from fix_stuck_corpus [OF Some] show ?thesis
    unfolding Some by (auto simp: fix_embeddings_keys clear_empty_keys)
qed

lemma step_unique:
  assumes "wf_op x"
    and "unique_keys (documents st)" and "from_object_tables cfg (documents st)"
    and "unique_keys (search_corpus st)"
  shows "unique_keys (documents (step cfg x st)) \<and>
         from_object_tables cfg (documents (step cfg x st)) \<and>
         unique_keys (search_corpus (step cfg x st))"
proof (cases x)
  case (Create_core_tables a b)
  with assms show ?thesis
    by (simp add: create_core_tables_def unique_keys_def from_object_tables_def)
next
  case (Ingest_simple_data se)
  with assms(1) have "distinct (map obj_uri (bucket_objects se))"
    by (simp add: wf_op_def)
  from ingest_simple_data_keeps [OF assms(2,3) this] assms(4) Ingest_simple_data
  show ?thesis by simp
next
  case (Create_search_corpus executed)
  have "documents (create_search_corpus executed st) = documents st"
    by (simp add: create_search_corpus_def)
  with create_search_corpus_unique [OF assms(2,4)] assms Create_search_corpus
  show ?thesis by simp
next
  case (Ingest_json_csv ie)
  with assms main_unique [OF assms(4)] show ?thesis
    by (simp add: on_search_corpus_def)
next
  case (Complete_vision me)
  with assms unique_keys_same [OF vision_main_keys(1,2)] show ?thesis
    by (simp add: on_search_corpus_def)
next
  case (Fix_stuck m err script e)
  have "unique_keys (case fix_stuck \<lparr>update_error = err, script_exists = script,
                              run_script = (\<lambda>c. (True, fix_embeddings e c))\<rparr> m (search_corpus st) of
               None \<Rightarrow> search_corpus st | Some r \<Rightarrow> corpus_after r) = unique_keys (search_corpus st)"
    using fix_stuck_step_keys [where err = err and script = script and e = e and m = m
        and t = "search_corpus st"]
    by (intro unique_keys_same) simp_all
  with assms Fix_stuck show ?thesis
    by (simp add: on_search_corpus_def)
next
  case (Fix_embeddings e)
  with assms unique_keys_same [OF fix_embeddings_keys(1,2)] show ?thesis
    by (simp add: on_search_corpus_def)
qed

lemma run_unique:
  assumes "list_all wf_op ops"
    and "unique_keys (documents st)" and "from_object_tables cfg (documents st)"
    and "unique_keys (search_corpus st)"
  shows "unique_keys (documents (run cfg ops st)) \<and> unique_keys (search_corpus (run cfg ops st))"
  using assms
proof (induction ops arbitrary: st)
  case Nil
  then show ?case by simp
next
  case (Cons x xs)
  from Cons.prems have "wf_op x" "list_all wf_op xs" by simp_all
  from step_unique [OF \<open>wf_op x\<close> Cons.prems(2,3,4)] Cons.IH [OF \<open>list_all wf_op xs\<close>]
  show ?case by simp
qed

text \<open>
  C1. Starting from the empty tables, after any sequence of runs of the operations that
  write the tables (creation of the tables, text and markdown ingestion, creation of the
  search corpus, JSON/CSV ingestion, image analysis, repair of embeddings), made for one
  bucket and prefix and where the objects listed in a bucket have different uris, the
  search corpus holds at most one record for a uri and a modality, and so does the table
  of documents.
\<close>

theorem one_record_per_uri_and_modality:
  assumes "list_all wf_op ops"
  shows "length (filter (\<lambda>d. uri d = u \<and> modality d = m)
                  (search_corpus (run cfg ops empty_store))) \<le> 1 \<and>
         length (filter (\<lambda>d. uri d = u \<and> modality d = m)
                  (documents (run cfg ops empty_store))) \<le> 1"
proof -
  have "unique_keys (documents empty_store)" "from_object_tables cfg (documents empty_store)"
    "unique_keys (search_corpus empty_store)"
    by (simp_all add: empty_store_def unique_keys_def from_object_tables_def)
  from run_unique [OF assms this]
  have "unique_keys (documents (run cfg ops empty_store))"
    and "unique_keys (search_corpus (run cfg ops empty_store))"
    by simp_all
  then show ?thesis
    by (intro conjI unique_keys_count)
qed

end
